theory Spec2Isabelle
  imports Main "HOL-Library.Word" "HOL-Library.AList"
begin

section \<open>Common data model\<close>

text \<open>
  Identifiers (\<open>flow.Identifier\<close>) are opaque 32-byte hashes; only equality of
  identifiers is ever used, so they are natural numbers here. The content hash
  \<open>ID()\<close> of an execution result is carried by the result as the field
  \<open>ResultID\<close>.
\<close>

type_synonym Identifier = nat

record ExecutionResult =
  ResultID :: Identifier
  PreviousResultID :: Identifier
  BlockID :: Identifier

record ExecutionReceipt =
  ExecutorID :: Identifier
  ExecutionResult :: ExecutionResult
  Spocks :: "nat list"
  ExecutorSignature :: nat

record IncorporatedResult =
  IncorporatedBlockID :: Identifier
  Result :: ExecutionResult

record Seal =
  Seal_BlockID :: Identifier
  Seal_ResultID :: Identifier

record IncorporatedResultSeal =
  Seal :: Seal
  IncorporatedResult :: IncorporatedResult

section \<open>The seal mempool wrapper (package approvals)\<close>

text \<open>
  A Go panic is a value of the model. The only panic the wrapper can raise is the
  call of a method on a nil interface value.
\<close>

datatype panic = NilPointerDereference

text \<open>
  Modelled from the spec: the grouping helpers of \<open>flow.ExecutionReceiptList\<close>
  (\<open>GroupByResultID\<close>, \<open>GetGroup\<close>, \<open>GroupByExecutorID\<close>, \<open>NumberGroups\<close>) are
  not under src/. A grouping is an association list from the grouping key to the
  receipts that carry it, one entry per key that occurs; \<open>GetGroup\<close> of a key that
  does not occur is the empty list; \<open>NumberGroups\<close> is the number of keys.
\<close>

type_synonym ExecutionReceiptGroupingList = "(Identifier \<times> ExecutionReceipt list) list"

definition groupBy :: "(ExecutionReceipt \<Rightarrow> Identifier) \<Rightarrow> ExecutionReceipt list
    \<Rightarrow> ExecutionReceiptGroupingList" where
  "groupBy f rs = map (\<lambda>k. (k, filter (\<lambda>r. f r = k) rs)) (remdups (map f rs))"

definition GroupByResultID :: "ExecutionReceipt list \<Rightarrow> ExecutionReceiptGroupingList" where
  "GroupByResultID rs = groupBy (\<lambda>r. ResultID (ExecutionResult r)) rs"

definition GroupByExecutorID :: "ExecutionReceipt list \<Rightarrow> ExecutionReceiptGroupingList" where
  "GroupByExecutorID rs = groupBy ExecutorID rs"

definition GetGroup :: "ExecutionReceiptGroupingList \<Rightarrow> Identifier \<Rightarrow> ExecutionReceipt list" where
  "GetGroup g k = (case map_of g k of None \<Rightarrow> [] | Some rs \<Rightarrow> rs)"

definition NumberGroups :: "ExecutionReceiptGroupingList \<Rightarrow> nat" where
  "NumberGroups g = length g"

text \<open>
  The struct \<open>IncorporatedResultSeals\<close>. Both fields are interface values:
  \<open>seals\<close> is the wrapped mempool, of which the wrapper's \<open>ByID\<close> only uses
  \<open>ByID\<close> (a finite map from identifiers to seals), and \<open>receiptsDB\<close> is the
  receipts storage, of which only \<open>ByBlockID\<close> is used (\<open>Inl\<close> is a read error).
  An interface field that was never assigned is nil: \<open>None\<close>.
\<close>

record IncorporatedResultSeals =
  seals :: "Identifier \<rightharpoonup> IncorporatedResultSeal"
  receiptsDB :: "(Identifier \<Rightarrow> string + ExecutionReceipt list) option"

text \<open>\<open>NewIncorporatedResultSeals\<close> sets the wrapped mempool only.\<close>

definition NewIncorporatedResultSeals ::
    "(Identifier \<rightharpoonup> IncorporatedResultSeal) \<Rightarrow> IncorporatedResultSeals" where
  "NewIncorporatedResultSeals mempool = \<lparr> seals = mempool, receiptsDB = None \<rparr>"

definition resultHasMultipleReceipts ::
    "IncorporatedResultSeals \<Rightarrow> IncorporatedResult \<Rightarrow> panic + bool" where
  "resultHasMultipleReceipts ir incorporatedResult =
     (let blockID = BlockID (Result incorporatedResult);
          resultID = ResultID (Result incorporatedResult)
      in case receiptsDB ir of
           None \<Rightarrow> Inl NilPointerDereference
         | Some db \<Rightarrow>
             (case db blockID of
                Inl err \<Rightarrow> Inr False
              | Inr receipts \<Rightarrow>
                  (let receiptsForIncorporatedResults = GetGroup (GroupByResultID receipts) resultID
                   in Inr (NumberGroups (GroupByExecutorID receiptsForIncorporatedResults) \<ge> 2))))"

text \<open>
  \<open>ByID\<close> returns a pair \<open>(seal, ok)\<close>; \<open>(nil, false)\<close> is \<open>None\<close> and
  \<open>(seal, true)\<close> is \<open>Some seal\<close>.
\<close>

definition ByID ::
    "IncorporatedResultSeals \<Rightarrow> Identifier \<Rightarrow> panic + IncorporatedResultSeal option" where
  "ByID ir ident =
     (case seals ir ident of
        None \<Rightarrow> Inr None
      | Some seal \<Rightarrow>
          (case resultHasMultipleReceipts ir (IncorporatedResult seal) of
             Inl p \<Rightarrow> Inl p
           | Inr multiple \<Rightarrow> if \<not> multiple then Inr None else Inr (Some seal)))"

text \<open>
  The receipts the store holds for the block of a result that commit to that result,
  and the set of their executors.
\<close>

definition executorsCommitting ::
    "(Identifier \<Rightarrow> string + ExecutionReceipt list) \<Rightarrow> ExecutionResult \<Rightarrow> Identifier set" where
  "executorsCommitting db res =
     (case db (BlockID res) of
        Inl err \<Rightarrow> {}
      | Inr receipts \<Rightarrow> ExecutorID ` {r \<in> set receipts. ResultID (ExecutionResult r) = ResultID res})"

section \<open>The chunk data pack requester (package requester)\<close>

text \<open>
  A state commitment and the proof of a chunk data pack are opaque byte strings.
  Times and durations are natural numbers (nanoseconds); heights and attempt counters
  are \<open>uint64\<close>.
\<close>

type_synonym StateCommitment = nat
type_synonym Time = nat
type_synonym Duration = nat

record ChunkDataPack =
  CDP_ChunkID :: Identifier
  StartState :: StateCommitment
  Proof :: "nat list"
  CollectionID :: Identifier

record Collection =
  Transactions :: "nat list"

text \<open>\<open>verification.ChunkDataPackRequest\<close>: what the engine reads of a request.\<close>

record ChunkDataPackRequest =
  ChunkID :: Identifier
  Height :: "64 word"
  Agrees :: "Identifier list"
  Disagrees :: "Identifier list"

text \<open>
  Modelled from the spec: the method \<open>ID()\<close> of a request is not under src/. The
  mempool maps the chunk ID to the request and its history, and the engine removes a
  request by \<open>Rem(request.ID())\<close>: the ID of a request is its chunk ID.
\<close>

definition request_ID :: "ChunkDataPackRequest \<Rightarrow> Identifier" where
  "request_ID request = ChunkID request"

text \<open>\<open>messages.ChunkDataRequest\<close>, the message published to the execution nodes.\<close>

record ChunkDataRequest =
  CDR_ChunkID :: Identifier
  Nonce :: "64 word"

subsection \<open>The pending requests mempool\<close>

text \<open>
  Modelled from the spec: the mempool \<open>mempool.ChunkRequests\<close> is an interface whose
  implementation is not under src/. It maps a chunk ID to
  \<open>{attempts, lastAttempt, retryAfter, request}\<close>. Here it is the list of its entries,
  in the order \<open>All()\<close> returns them; the key of an entry is the chunk ID of its
  request. \<open>Rem\<close> returns whether anything was removed; \<open>RequestHistory\<close> returns the
  history if present; \<open>UpdateRequestHistory\<close> applies the updater to the history of
  the entry and returns the updated tuple and whether an update was applied.
\<close>

record ChunkRequestStatus =
  Request :: ChunkDataPackRequest
  Attempts :: "64 word"
  LastAttempt :: Time
  RetryAfter :: Duration

type_synonym ChunkRequests = "ChunkRequestStatus list"

definition entryKey :: "ChunkRequestStatus \<Rightarrow> Identifier" where
  "entryKey entry = ChunkID (Request entry)"

definition ChunkRequests_All :: "ChunkRequests \<Rightarrow> ChunkDataPackRequest list" where
  "ChunkRequests_All pool = map Request pool"

definition ChunkRequests_Has :: "ChunkRequests \<Rightarrow> Identifier \<Rightarrow> bool" where
  "ChunkRequests_Has pool chunkID = (chunkID \<in> set (map entryKey pool))"

definition ChunkRequests_Rem :: "ChunkRequests \<Rightarrow> Identifier \<Rightarrow> bool \<times> ChunkRequests" where
  "ChunkRequests_Rem pool chunkID =
     (ChunkRequests_Has pool chunkID, filter (\<lambda>entry. entryKey entry \<noteq> chunkID) pool)"

definition ChunkRequests_Add ::
    "Duration \<Rightarrow> ChunkRequests \<Rightarrow> ChunkDataPackRequest \<Rightarrow> bool \<times> ChunkRequests" where
  "ChunkRequests_Add initialRetry pool request =
     (if ChunkRequests_Has pool (ChunkID request) then (False, pool)
      else (True, pool @ [\<lparr> Request = request, Attempts = 0, LastAttempt = 0,
                              RetryAfter = initialRetry \<rparr>]))"

definition RequestHistory ::
    "ChunkRequests \<Rightarrow> Identifier \<Rightarrow> (64 word \<times> Time \<times> Duration) option" where
  "RequestHistory pool chunkID =
     (case find (\<lambda>entry. entryKey entry = chunkID) pool of
        None \<Rightarrow> None
      | Some entry \<Rightarrow> Some (Attempts entry, LastAttempt entry, RetryAfter entry))"

definition UpdateRequestHistory ::
    "ChunkRequests \<Rightarrow> Identifier \<Rightarrow> (64 word \<Rightarrow> Time \<Rightarrow> Duration \<Rightarrow> 64 word \<times> Time \<times> Duration)
      \<Rightarrow> (64 word \<times> Time \<times> Duration \<times> bool) \<times> ChunkRequests" where
  "UpdateRequestHistory pool chunkID updater =
     (case RequestHistory pool chunkID of
        None \<Rightarrow> ((0, 0, 0, False), pool)
      | Some (attempts, lastAttempt, retryAfter) \<Rightarrow>
          (case updater attempts lastAttempt retryAfter of
             (attempts', lastAttempt', retryAfter') \<Rightarrow>
               ((attempts', lastAttempt', retryAfter', True),
                map (\<lambda>entry. if entryKey entry = chunkID
                       then entry\<lparr> Attempts := attempts', LastAttempt := lastAttempt',
                                   RetryAfter := retryAfter' \<rparr>
                       else entry) pool)))"

subsection \<open>The engine\<close>

text \<open>
  The fields of \<open>Engine\<close> that decide its behaviour. The collaborators behind
  interfaces are given by what they answer: \<open>state_Sealed_Head\<close> is the result of
  \<open>e.state.Sealed().Head()\<close> (an error, or the height of the last sealed header),
  \<open>con_Publish\<close> is the error \<open>e.con.Publish\<close> returns for a message and its targets
  (\<open>None\<close> is nil). The two sources of randomness, \<open>rand.Uint64()\<close> and
  \<open>request.SampleTargets(n)\<close>, are functions of the number of draws made so far.
  Logging, tracing and metrics have no effect on the state and are left out.
\<close>

record Engine =
  state_Sealed_Head :: "string + 64 word"
  con_Publish :: "ChunkDataRequest \<Rightarrow> Identifier list \<Rightarrow> string option"
  requestTargets :: "64 word"
  reqQualifierFunc :: "64 word \<Rightarrow> Time \<Rightarrow> Duration \<Rightarrow> bool"
  reqUpdaterFunc :: "64 word \<Rightarrow> Time \<Rightarrow> Duration \<Rightarrow> 64 word \<times> Time \<times> Duration"
  rand_Uint64 :: "nat \<Rightarrow> 64 word"
  SampleTargets :: "nat \<Rightarrow> ChunkDataPackRequest \<Rightarrow> int \<Rightarrow> Identifier list"

text \<open>The calls the engine makes on its handler, \<open>fetcher.ChunkDataPackHandler\<close>.\<close>

datatype HandlerCall =
    HandleChunkDataPack Identifier ChunkDataPack Collection
  | NotifyChunkDataPackSealed Identifier

text \<open>
  What the engine changes: the mempool, and the calls it has made so far on the
  handler and on \<open>Publish\<close> of the conduit (oldest first), and the number of random
  draws.
\<close>

record World =
  pendingRequests :: ChunkRequests
  handlerCalls :: "HandlerCall list"
  publishCalls :: "(ChunkDataRequest \<times> Identifier list) list"
  draws :: nat

definition handleChunkDataPack ::
    "Engine \<Rightarrow> Identifier \<Rightarrow> ChunkDataPack \<Rightarrow> Collection \<Rightarrow> World \<Rightarrow> World" where
  "handleChunkDataPack e originID chunkDataPack collection w =
     (let chunkID = CDP_ChunkID chunkDataPack;
          (removed, pool) = ChunkRequests_Rem (pendingRequests w) chunkID;
          w1 = w\<lparr> pendingRequests := pool \<rparr>
      in if \<not> removed then w1
         else w1\<lparr> handlerCalls :=
                    handlerCalls w1 @ [HandleChunkDataPack originID chunkDataPack collection] \<rparr>)"

datatype Event =
    ChunkDataResponse ChunkDataPack Collection "64 word"
  | OtherEvent

definition process :: "Engine \<Rightarrow> Identifier \<Rightarrow> Event \<Rightarrow> World \<Rightarrow> string option \<times> World" where
  "process e originID event w =
     (case event of
        ChunkDataResponse chunkDataPack collection nonce \<Rightarrow>
          (None, handleChunkDataPack e originID chunkDataPack collection w)
      | OtherEvent \<Rightarrow> (Some ''invalid event type'', w))"

definition Request_add :: "Duration \<Rightarrow> Engine \<Rightarrow> ChunkDataPackRequest \<Rightarrow> World \<Rightarrow> World" where
  "Request_add initialRetry e request w =
     w\<lparr> pendingRequests := snd (ChunkRequests_Add initialRetry (pendingRequests w) request) \<rparr>"

definition requestChunkDataPack ::
    "Engine \<Rightarrow> ChunkDataPackRequest \<Rightarrow> World \<Rightarrow> string option \<times> World" where
  "requestChunkDataPack e request w =
     (let req = \<lparr> CDR_ChunkID = ChunkID request, Nonce = rand_Uint64 e (draws w) \<rparr>;
          targetIDs = SampleTargets e (Suc (draws w)) request (sint (requestTargets e));
          w1 = w\<lparr> publishCalls := publishCalls w @ [(req, targetIDs)],
                   draws := draws w + 2 \<rparr>
      in case con_Publish e req targetIDs of
           Some err \<Rightarrow> (Some (''could not publish chunk data pack request: '' @ err), w1)
         | None \<Rightarrow> (None, w1))"

definition canDispatchRequest :: "Engine \<Rightarrow> Identifier \<Rightarrow> World \<Rightarrow> bool" where
  "canDispatchRequest e chunkID w =
     (case RequestHistory (pendingRequests w) chunkID of
        None \<Rightarrow> False
      | Some (attempts, lastAttempt, retryAfter) \<Rightarrow>
          reqQualifierFunc e attempts lastAttempt retryAfter)"

definition onRequestDispatched ::
    "Engine \<Rightarrow> Identifier \<Rightarrow> World \<Rightarrow> (64 word \<times> Time \<times> Duration \<times> bool) \<times> World" where
  "onRequestDispatched e chunkID w =
     (case UpdateRequestHistory (pendingRequests w) chunkID (reqUpdaterFunc e) of
        (res, pool) \<Rightarrow> (res, w\<lparr> pendingRequests := pool \<rparr>))"

definition handleChunkDataPackRequest ::
    "Engine \<Rightarrow> ChunkDataPackRequest \<Rightarrow> 64 word \<Rightarrow> World \<Rightarrow> World" where
  "handleChunkDataPackRequest e request lastSealedHeight w =
     (if Height request \<le> lastSealedHeight then
        (let (removed, pool) = ChunkRequests_Rem (pendingRequests w) (request_ID request)
         in w\<lparr> pendingRequests := pool,
                handlerCalls := handlerCalls w @ [NotifyChunkDataPackSealed (request_ID request)] \<rparr>)
      else if \<not> canDispatchRequest e (ChunkID request) w then w
      else
        (case requestChunkDataPack e request w of
           (Some err, w1) \<Rightarrow> w1
         | (None, w1) \<Rightarrow> snd (onRequestDispatched e (ChunkID request) w1)))"

text \<open>
  The loop of \<open>onTimer\<close> over the snapshot \<open>pendingRequests.All()\<close>.
\<close>

fun handleAll :: "Engine \<Rightarrow> 64 word \<Rightarrow> ChunkDataPackRequest list \<Rightarrow> World \<Rightarrow> World" where
  "handleAll e lastSealedHeight [] w = w"
| "handleAll e lastSealedHeight (request # pendingReqs) w =
     handleAll e lastSealedHeight pendingReqs
       (handleChunkDataPackRequest e request lastSealedHeight w)"

text \<open>
  \<open>onTimer\<close>. When the last sealed header cannot be read the engine logs at level
  fatal, which ends the process: \<open>Inl\<close>.
\<close>

definition onTimer :: "Engine \<Rightarrow> World \<Rightarrow> string + World" where
  "onTimer e w =
     (let pendingReqs = ChunkRequests_All (pendingRequests w)
      in case state_Sealed_Head e of
           Inl err \<Rightarrow> Inl ''could not determine whether block has been sealed''
         | Inr lastSealedHeight \<Rightarrow> Inr (handleAll e lastSealedHeight pendingReqs w))"

text \<open>The calls made since an earlier state: what was appended to a log.\<close>

definition since :: "'a list \<Rightarrow> 'a list \<Rightarrow> 'a list" where
  "since before after = drop (length before) after"

subsection \<open>A concrete requester\<close>

text \<open>
  Two pending requests, one for a chunk of a block at height 5 and one for a chunk of
  a block at height 20, and an engine whose conduit answers every publish with the
  given error.
\<close>

definition sealedRequest :: ChunkDataPackRequest where
  "sealedRequest = \<lparr> ChunkID = 7, Height = 5, Agrees = [1, 2], Disagrees = [3] \<rparr>"

definition openRequest :: ChunkDataPackRequest where
  "openRequest = \<lparr> ChunkID = 8, Height = 20, Agrees = [1], Disagrees = [2, 3] \<rparr>"

definition exampleEngine :: "string option \<Rightarrow> Engine" where
  "exampleEngine publishError =
     \<lparr> state_Sealed_Head = Inr 10,
       con_Publish = (\<lambda>req targetIDs. publishError),
       requestTargets = 2,
       reqQualifierFunc = (\<lambda>attempts lastAttempt retryAfter. True),
       reqUpdaterFunc = (\<lambda>attempts lastAttempt retryAfter.
                           (attempts + 1, lastAttempt + 1, 2 * retryAfter)),
       rand_Uint64 = (\<lambda>n. of_nat n),
       SampleTargets = (\<lambda>n request k. take (nat k) (Agrees request @ Disagrees request)) \<rparr>"

definition exampleWorld :: World where
  "exampleWorld =
     \<lparr> pendingRequests =
         [\<lparr> Request = sealedRequest, Attempts = 0, LastAttempt = 0, RetryAfter = 4 \<rparr>,
          \<lparr> Request = openRequest, Attempts = 1, LastAttempt = 3, RetryAfter = 4 \<rparr>],
       handlerCalls = [],
       publishCalls = [],
       draws = 0 \<rparr>"

definition exampleChunkDataPack :: ChunkDataPack where
  "exampleChunkDataPack = \<lparr> CDP_ChunkID = 8, StartState = 1, Proof = [], CollectionID = 4 \<rparr>"

section \<open>The chunk verifier (package chunks)\<close>

subsection \<open>Registers and the partial ledger\<close>

text \<open>
  A register is addressed by owner, controller and key; \<open>RegisterIDToKey\<close> turns the
  three parts into the key parts of a ledger key. Register values are byte strings.
\<close>

datatype RegisterID = NewRegisterID string string string

datatype LedgerKey = LedgerKey string string string

type_synonym RegisterValue = string

fun RegisterIDToKey :: "RegisterID \<Rightarrow> LedgerKey" where
  "RegisterIDToKey (NewRegisterID owner controller k) = LedgerKey owner controller k"

datatype LedgerError = ErrMissingKeys "LedgerKey list" | OtherLedgerError string

text \<open>
  The partial ledger \<open>psmt\<close> is an external collaborator (package \<open>ledger/partial\<close>),
  given by what it answers. \<open>psmt_Get\<close> is \<open>psmt.Get\<close> on the query for one key
  at a state: the value of that key (\<open>values[0]\<close>; the ledger returns one value
  per queried key), or an error. \<open>psmt_Set\<close> is \<open>psmt.Set\<close> on the update of the
  given keys to the given values at a state: the new root, or an error.
\<close>

record PartialLedger =
  psmt_Get :: "StateCommitment \<Rightarrow> LedgerKey \<Rightarrow> LedgerError + RegisterValue"
  psmt_Set :: "StateCommitment \<Rightarrow> LedgerKey list \<Rightarrow> RegisterValue list
                \<Rightarrow> LedgerError + StateCommitment"

text \<open>
  The functions of the ledger packages the verifier calls: \<open>partial.NewLedger\<close> on a
  proof and a start state (an error, or the partial ledger), and the errors of
  \<open>ledger.NewQuery\<close> and \<open>ledger.NewUpdate\<close> (\<open>None\<close> is nil).
\<close>

record LedgerPackage =
  partial_NewLedger :: "nat list \<Rightarrow> StateCommitment \<Rightarrow> string + PartialLedger"
  ledger_NewQuery :: "StateCommitment \<Rightarrow> LedgerKey list \<Rightarrow> string option"
  ledger_NewUpdate :: "StateCommitment \<Rightarrow> LedgerKey list \<Rightarrow> RegisterValue list \<Rightarrow> string option"

subsection \<open>The view and the virtual machine\<close>

text \<open>
  Modelled from the spec: \<open>delta.View\<close> is not under src/. A view holds the register
  updates made through it (its delta, an association list) and the sequence of
  register touches from which its SPoCK secret is derived; the hash is left out and
  the sequence stands for the secret. A read through a view is answered from its delta
  if the register was written through it, and otherwise by the read function the view
  was created with. A child view reads through its parent without changing it, and
  merging puts the child's updates and touches into the parent; merging a child of the
  view itself does not fail. \<open>RegisterUpdates\<close> gives the updated registers and their
  values in the order of the delta.
\<close>

record View =
  delta :: "(RegisterID \<times> RegisterValue) list"
  touches :: "RegisterID list"

type_synonym SpockSecret = "RegisterID list"

definition NewView :: View where
  "NewView = \<lparr> delta = [], touches = [] \<rparr>"

definition RegisterUpdates :: "(RegisterID \<times> RegisterValue) list
    \<Rightarrow> RegisterID list \<times> RegisterValue list" where
  "RegisterUpdates d = (map fst d, map snd d)"

definition SpockSecret :: "View \<Rightarrow> SpockSecret" where
  "SpockSecret v = touches v"

definition view_Set :: "View \<Rightarrow> RegisterID \<Rightarrow> RegisterValue \<Rightarrow> View" where
  "view_Set v registerID val =
     v\<lparr> delta := AList.update registerID val (delta v), touches := touches v @ [registerID] \<rparr>"

definition MergeView :: "View \<Rightarrow> View \<Rightarrow> string + View" where
  "MergeView parent child =
     Inr (parent\<lparr> delta := fold (\<lambda>(registerID, val). AList.update registerID val)
                                (delta child) (delta parent),
                   touches := touches parent @ touches child \<rparr>)"

text \<open>
  The state the closure \<open>getRegister\<close> captures and changes: the map
  \<open>unknownRegTouch\<close> (keyed in the source by the string of the register ID, which is
  one-to-one, and here by the register ID; entries in the order they were first put).
  \<open>reads\<close> is not in the source: it logs, in order, the registers for which the
  partial ledger was queried, so that properties can speak about the reads made.
\<close>

record ReadState =
  unknownRegTouch :: "(RegisterID \<times> LedgerKey) list"
  reads :: "RegisterID list"

type_synonym ReadFunc = "RegisterID \<Rightarrow> ReadState \<Rightarrow> (string + RegisterValue) \<times> ReadState"

definition view_Get :: "ReadFunc \<Rightarrow> View \<Rightarrow> RegisterID \<Rightarrow> ReadState
    \<Rightarrow> (string + RegisterValue) \<times> View \<times> ReadState" where
  "view_Get readFunc v registerID st =
     (case map_of (delta v) registerID of
        Some val \<Rightarrow> (Inr val, v\<lparr> touches := touches v @ [registerID] \<rparr>, st)
      | None \<Rightarrow>
          (case readFunc registerID st of
             (Inl err, st') \<Rightarrow> (Inl (''get register failed: '' @ err), v, st')
           | (Inr val, st') \<Rightarrow> (Inr val, v\<lparr> touches := touches v @ [registerID] \<rparr>, st')))"

definition view_Peek :: "ReadFunc \<Rightarrow> View \<Rightarrow> ReadFunc" where
  "view_Peek readFunc v registerID st =
     (case map_of (delta v) registerID of
        Some val \<Rightarrow> (Inr val, st)
      | None \<Rightarrow> readFunc registerID st)"

text \<open>
  The virtual machine is an external collaborator that acts on the state only through
  the view it is given. A run of the machine on a procedure is the tree of its register
  reads and writes: it finishes with the error \<open>Run\<close> returns (\<open>None\<close> is nil), or
  reads a register and goes on according to what the view answers, or writes a
  register and goes on.
\<close>

datatype Execution =
    Finish "string option"
  | GetRegister RegisterID "string + RegisterValue \<Rightarrow> Execution"
  | SetRegister RegisterID RegisterValue Execution

primrec run :: "Execution \<Rightarrow> ReadFunc \<Rightarrow> View \<Rightarrow> ReadState \<Rightarrow> string option \<times> View \<times> ReadState" where
  "run (Finish err) = (\<lambda>readFunc v st. (err, v, st))"
| "run (GetRegister registerID continue) = (\<lambda>readFunc v st.
     case view_Get readFunc v registerID st of
       (res, v', st') \<Rightarrow> run (continue res) readFunc v' st')"
| "run (SetRegister registerID val continue) = (\<lambda>readFunc v st.
     run continue readFunc (view_Set v registerID val) st)"

subsection \<open>The verifier\<close>

record Header =
  HeaderID :: Identifier
  ParentID :: Identifier
  Header_Height :: "64 word"

text \<open>
  What the verifier sets and reads in an \<open>fvm.Context\<close>: the block header, the
  three options of the system chunk context, and the service address of the chain. The
  transaction processors that \<open>NewChunkVerifier\<close> also sets for the system chunk
  context belong to the machine and are not modelled.
\<close>

record Context =
  BlockHeader :: "Header option"
  RestrictedAccountCreation :: bool
  RestrictedDeployment :: bool
  ServiceEventCollectionEnabled :: bool
  ServiceAddress :: nat

datatype TransactionBody = CollectionTransaction nat | SystemChunkTransaction nat

record TransactionProcedure =
  Transaction :: TransactionBody
  TxIndex :: "32 word"

record Chunk =
  Index :: "64 word"
  Chunk_StartState :: StateCommitment
  Chunk_EndState :: StateCommitment

record VerifiableChunkData =
  IsSystemChunk :: bool
  VC_Chunk :: Chunk
  VC_Header :: Header
  VC_Result :: ExecutionResult
  VC_Collection :: Collection
  VC_ChunkDataPack :: "ChunkDataPack option"
  EndState :: StateCommitment

record ChunkVerifier =
  vm :: "Context \<Rightarrow> TransactionProcedure \<Rightarrow> Execution"
  vmCtx :: Context
  systemChunkCtx :: Context

definition NewChunkVerifier ::
    "(Context \<Rightarrow> TransactionProcedure \<Rightarrow> Execution) \<Rightarrow> Context \<Rightarrow> ChunkVerifier" where
  "NewChunkVerifier machine ctx =
     \<lparr> vm = machine,
       vmCtx = ctx,
       systemChunkCtx = ctx\<lparr> RestrictedAccountCreation := False,
                              RestrictedDeployment := False,
                              ServiceEventCollectionEnabled := True \<rparr> \<rparr>"

datatype ChunkFault =
    CFMissingRegisterTouch "LedgerKey list" "64 word" Identifier
  | CFNonMatchingFinalState StateCommitment StateCommitment "64 word" Identifier
  | CFInvalidVerifiableChunk string string "64 word" Identifier

text \<open>
  The three results of the verifier: the SPoCK secret, the chunk fault and the error,
  each \<open>None\<close> when nil.
\<close>

type_synonym VerifyResult = "SpockSecret option \<times> ChunkFault option \<times> string option"

definition getRegister :: "LedgerPackage \<Rightarrow> PartialLedger \<Rightarrow> ChunkDataPack \<Rightarrow> ReadFunc" where
  "getRegister L psmt chunkDataPack registerID st =
     (let registerKey = RegisterIDToKey registerID
      in case ledger_NewQuery L (StartState chunkDataPack) [registerKey] of
           Some err \<Rightarrow> (Inl (''cannot create query: '' @ err), st)
         | None \<Rightarrow>
             (let st1 = st\<lparr> reads := reads st @ [registerID] \<rparr>
              in case psmt_Get psmt (StartState chunkDataPack) registerKey of
                   Inl (ErrMissingKeys ks) \<Rightarrow>
                     (Inr [], st1\<lparr> unknownRegTouch :=
                                     AList.update registerID registerKey (unknownRegTouch st1) \<rparr>)
                 | Inl (OtherLedgerError err) \<Rightarrow> (Inl (''cannot query register: '' @ err), st1)
                 | Inr val \<Rightarrow> (Inr val, st1)))"

text \<open>
  The loop over the transactions of the chunk, from transaction \<open>i\<close> on: each runs
  on a new child of the chunk view, which is merged back when the machine returned no
  error. \<open>Inl\<close> is the error the loop returns early with. (The programs cache
  is opaque to the verifier and left out.)
\<close>

fun executeTransactions :: "ChunkVerifier \<Rightarrow> LedgerPackage \<Rightarrow> PartialLedger \<Rightarrow> ChunkDataPack
    \<Rightarrow> Context \<Rightarrow> nat \<Rightarrow> TransactionProcedure list \<Rightarrow> View \<Rightarrow> ReadState
    \<Rightarrow> string + View \<times> ReadState" where
  "executeTransactions fcv L psmt chunkDataPack ctx i [] chunkView st = Inr (chunkView, st)"
| "executeTransactions fcv L psmt chunkDataPack ctx i (tx # transactions) chunkView st =
     (case run (vm fcv ctx tx) (view_Peek (getRegister L psmt chunkDataPack) chunkView) NewView st of
        (Some err, txView, st') \<Rightarrow> Inl (''failed to execute transaction: '' @ err)
      | (None, txView, st') \<Rightarrow>
          (case MergeView chunkView txView of
             Inl err \<Rightarrow> Inl (''failed to execute transaction: '' @ err)
           | Inr chunkView' \<Rightarrow>
               executeTransactions fcv L psmt chunkDataPack ctx (Suc i) transactions chunkView' st'))"

definition emptyReadState :: ReadState where
  "emptyReadState = \<lparr> unknownRegTouch = [], reads = [] \<rparr>"

definition verifyTransactionsInContext :: "ChunkVerifier \<Rightarrow> LedgerPackage \<Rightarrow> Context \<Rightarrow> Chunk
    \<Rightarrow> ChunkDataPack option \<Rightarrow> ExecutionResult \<Rightarrow> TransactionProcedure list \<Rightarrow> StateCommitment
    \<Rightarrow> VerifyResult" where
  "verifyTransactionsInContext fcv L ctx chunk chunkDataPack result transactions endState =
     (let chIndex = Index chunk; execResID = ResultID result
      in case chunkDataPack of
           None \<Rightarrow> (None, None, Some ''missing chunk data pack'')
         | Some cdp \<Rightarrow>
      (case partial_NewLedger L (Proof cdp) (StartState cdp) of
         Inl err \<Rightarrow>
           (None, Some (CFInvalidVerifiableChunk ''error constructing partial trie: '' err
                          chIndex execResID), None)
       | Inr psmt \<Rightarrow>
      (case executeTransactions fcv L psmt cdp ctx 0 transactions NewView emptyReadState of
         Inl err \<Rightarrow> (None, None, Some err)
       | Inr (chunkView, st) \<Rightarrow>
           if length (unknownRegTouch st) > 0
           then (None, Some (CFMissingRegisterTouch (map snd (unknownRegTouch st))
                               chIndex execResID), None)
           else
             (case RegisterUpdates (delta chunkView) of (regs, vals) \<Rightarrow>
             (case ledger_NewUpdate L (StartState cdp) (map RegisterIDToKey regs) vals of
                Some err \<Rightarrow> (None, None, Some (''cannot create ledger update: '' @ err))
              | None \<Rightarrow>
             (case psmt_Set psmt (StartState cdp) (map RegisterIDToKey regs) vals of
                Inl (ErrMissingKeys keys) \<Rightarrow>
                  (None, Some (CFMissingRegisterTouch keys chIndex execResID), None)
              | Inl (OtherLedgerError err) \<Rightarrow>
                  (None, Some (CFMissingRegisterTouch [] chIndex execResID), None)
              | Inr expEndStateComm \<Rightarrow>
                  if expEndStateComm \<noteq> endState
                  then (None, Some (CFNonMatchingFinalState expEndStateComm endState
                                      chIndex execResID), None)
                  else (Some (SpockSecret chunkView), None, None)))))))"

definition verifyTransactions :: "ChunkVerifier \<Rightarrow> LedgerPackage \<Rightarrow> Chunk \<Rightarrow> ChunkDataPack option
    \<Rightarrow> ExecutionResult \<Rightarrow> Header \<Rightarrow> TransactionProcedure list \<Rightarrow> StateCommitment
    \<Rightarrow> VerifyResult" where
  "verifyTransactions fcv L chunk chunkDataPack result header transactions endState =
     (let blockCtx = (vmCtx fcv)\<lparr> BlockHeader := Some header \<rparr>
      in verifyTransactionsInContext fcv L blockCtx chunk chunkDataPack result transactions endState)"

definition Verify :: "ChunkVerifier \<Rightarrow> LedgerPackage \<Rightarrow> VerifiableChunkData \<Rightarrow> VerifyResult" where
  "Verify fcv L vc =
     (if IsSystemChunk vc
      then (None, None, Some ''wrong method invoked for verifying system chunk'')
      else
        (let transactions =
               map (\<lambda>(i, txBody). \<lparr> Transaction = CollectionTransaction txBody,
                                     TxIndex = of_nat i \<rparr>)
                   (enumerate 0 (Transactions (VC_Collection vc)))
         in verifyTransactions fcv L (VC_Chunk vc) (VC_ChunkDataPack vc) (VC_Result vc)
              (VC_Header vc) transactions (EndState vc)))"

definition SystemChunkVerify ::
    "ChunkVerifier \<Rightarrow> LedgerPackage \<Rightarrow> VerifiableChunkData \<Rightarrow> VerifyResult" where
  "SystemChunkVerify fcv L vc =
     (if \<not> IsSystemChunk vc
      then (None, None, Some ''wrong method invoked for verifying non-system chunk'')
      else
        (let txBody = SystemChunkTransaction (ServiceAddress (vmCtx fcv));
             tx = \<lparr> Transaction = txBody, TxIndex = 0 \<rparr>;
             transactions = [tx];
             systemChunkContext = (systemChunkCtx fcv)\<lparr> BlockHeader := Some (VC_Header vc) \<rparr>
         in verifyTransactionsInContext fcv L systemChunkContext (VC_Chunk vc)
              (VC_ChunkDataPack vc) (VC_Result vc) transactions (EndState vc)))"

text \<open>
  A register read during execution touched a path outside the proof when the partial
  ledger answered the query for its key with missing keys.
\<close>

definition outsideProof :: "PartialLedger \<Rightarrow> ChunkDataPack \<Rightarrow> RegisterID \<Rightarrow> bool" where
  "outsideProof psmt chunkDataPack registerID =
     (case psmt_Get psmt (StartState chunkDataPack) (RegisterIDToKey registerID) of
        Inl (ErrMissingKeys ks) \<Rightarrow> True
      | Inl (OtherLedgerError err) \<Rightarrow> False
      | Inr val \<Rightarrow> False)"

text \<open>
  The invariant of \<open>unknownRegTouch\<close>: it holds one entry for each register that was
  read from the partial ledger and lies outside the proof, with the key of that
  register.
\<close>

definition touchInv :: "PartialLedger \<Rightarrow> ChunkDataPack \<Rightarrow> ReadState \<Rightarrow> bool" where
  "touchInv psmt cdp st \<longleftrightarrow>
     distinct (map fst (unknownRegTouch st)) \<and>
     map_of (unknownRegTouch st)
       = (\<lambda>r. if r \<in> set (reads st) \<and> outsideProof psmt cdp r
               then Some (RegisterIDToKey r) else None)"

subsection \<open>A concrete verifier\<close>

text \<open>
  A partial ledger whose proof covers the one register \<open>regA\<close>, and a machine whose
  transaction 0 reads and then writes \<open>regA\<close> and whose other transactions read
  \<open>regB\<close>, which the proof does not cover.
\<close>

definition regA :: RegisterID where
  "regA = NewRegisterID ''a'' [] ''balance''"

definition regB :: RegisterID where
  "regB = NewRegisterID ''b'' [] ''balance''"

definition examplePsmt :: PartialLedger where
  "examplePsmt =
     \<lparr> psmt_Get = (\<lambda>s k. if k = RegisterIDToKey regA then Inr ''1''
                           else Inl (ErrMissingKeys [k])),
       psmt_Set = (\<lambda>s keys vals.
                     if list_all (\<lambda>k. k = RegisterIDToKey regA) keys
                     then Inr (s + length (concat vals))
                     else Inl (ErrMissingKeys (filter (\<lambda>k. k \<noteq> RegisterIDToKey regA) keys))) \<rparr>"

definition exampleLedger :: LedgerPackage where
  "exampleLedger =
     \<lparr> partial_NewLedger = (\<lambda>proof s. Inr examplePsmt),
       ledger_NewQuery = (\<lambda>s keys. None),
       ledger_NewUpdate = (\<lambda>s keys vals. if length keys = length vals then None
                                            else Some ''length mismatch'') \<rparr>"

definition exampleVM :: "Context \<Rightarrow> TransactionProcedure \<Rightarrow> Execution" where
  "exampleVM ctx tx =
     (case Transaction tx of
        CollectionTransaction n \<Rightarrow>
          if n = 0 then GetRegister regA (\<lambda>res. SetRegister regA ''22'' (Finish None))
          else GetRegister regB (\<lambda>res. Finish None)
      | SystemChunkTransaction serviceAddress \<Rightarrow> Finish None)"

definition exampleContext :: Context where
  "exampleContext =
     \<lparr> BlockHeader = None, RestrictedAccountCreation = True, RestrictedDeployment = True,
       ServiceEventCollectionEnabled = False, ServiceAddress = 1 \<rparr>"

definition exampleVerifier :: ChunkVerifier where
  "exampleVerifier = NewChunkVerifier exampleVM exampleContext"

definition exampleChunk :: Chunk where
  "exampleChunk = \<lparr> Index = 0, Chunk_StartState = 1, Chunk_EndState = 3 \<rparr>"

definition exampleResult :: ExecutionResult where
  "exampleResult = \<lparr> ResultID = 9, PreviousResultID = 6, BlockID = 5 \<rparr>"

definition exampleTransaction :: "nat \<Rightarrow> TransactionProcedure" where
  "exampleTransaction n = \<lparr> Transaction = CollectionTransaction n, TxIndex = 0 \<rparr>"

section \<open>The consensus payload builder (package consensus)\<close>

text \<open>
  Modelled from the spec: the builder (\<open>Builder.BuildOn\<close> and what it calls) and the
  execution tree mempool are not under src/; only the builder's tests are. The
  definitions of this section follow section 4.8 of the specification (steps 1, 3 and
  4: the walk back over the fork, the selection of seals, the selection of receipts and
  results) and section 4.1 for \<open>ReachableReceipts\<close>. The selection of collection
  guarantees (step 2) and the header (step 5) are left out: no property stated here
  depends on them.
\<close>

text \<open>
  Modelled from the spec: the payload and block types are not under src/. A receipt
  meta is the receipt without the body of its result; the identity of a receipt is
  that of its meta.
\<close>

record ExecutionReceiptMeta =
  Meta_ExecutorID :: Identifier
  Meta_ResultID :: Identifier
  Meta_Spocks :: "nat list"
  Meta_ExecutorSignature :: nat

definition Meta :: "ExecutionReceipt \<Rightarrow> ExecutionReceiptMeta" where
  "Meta receipt =
     \<lparr> Meta_ExecutorID = ExecutorID receipt,
       Meta_ResultID = ResultID (ExecutionResult receipt),
       Meta_Spocks = Spocks receipt,
       Meta_ExecutorSignature = ExecutorSignature receipt \<rparr>"

record Payload =
  Receipts :: "ExecutionReceiptMeta list"
  Results :: "ExecutionResult list"
  Seals :: "Seal list"

record Block =
  Block_Header :: Header
  Block_Payload :: Payload

text \<open>
  Modelled from the spec: the struct \<open>Builder\<close> is not under src/. What the builder
  reads: the block storage, the last seal of the fork that ends at a
  block (\<open>Seals.ByBlockID\<close>), the seal mempool (\<open>All()\<close>), the execution tree mempool
  (its receipts, each with the header of the block it is for), the two limits and the
  receipt validator.
\<close>

record Builder =
  blockDB :: "Identifier \<rightharpoonup> Block"
  sealDB :: "Identifier \<Rightarrow> string + Seal"
  sealPool :: "IncorporatedResultSeal list"
  recPool :: "(ExecutionReceipt \<times> Header) list"
  maxSealCount :: "64 word"
  maxReceiptCount :: "64 word"
  validates :: "ExecutionReceipt \<Rightarrow> bool"

text \<open>
  Modelled from the spec: step 1 of section 4.8, the walk back from the parent towards
  the last sealed block: the blocks of the fork, the parent first. Heights grow by one
  per parent, so the walk over the unsealed blocks takes as many steps as the parent is
  above the sealed height. A block that storage does not have is a storage failure,
  which aborts building.
\<close>

fun walkBack :: "(Identifier \<rightharpoonup> Block) \<Rightarrow> nat \<Rightarrow> Identifier \<Rightarrow> string + Block list" where
  "walkBack db 0 blockID = Inr []"
| "walkBack db (Suc n) blockID =
     (case db blockID of
        None \<Rightarrow> Inl ''could not get ancestor: not found''
      | Some block \<Rightarrow>
          (case walkBack db n (ParentID (Block_Header block)) of
             Inl err \<Rightarrow> Inl err
           | Inr ancestors \<Rightarrow> Inr (block # ancestors)))"

definition incorporatedReceipts :: "Block list \<Rightarrow> ExecutionReceiptMeta list" where
  "incorporatedReceipts fork = concat (map (\<lambda>block. Receipts (Block_Payload block)) fork)"

definition incorporatedResults :: "Block list \<Rightarrow> Identifier list" where
  "incorporatedResults fork =
     map ResultID (concat (map (\<lambda>block. Results (Block_Payload block)) fork))"

definition forkIDs :: "Block list \<Rightarrow> Identifier list" where
  "forkIDs fork = map (\<lambda>block. HeaderID (Block_Header block)) fork"

text \<open>
  Modelled from the spec: step 3 of section 4.8, the selection of seals: starting from
  the result of the last seal on the fork, take the candidate whose incorporated result
  has that result as its previous result, go on from the result that candidate seals,
  stop at the first gap, and take at most the given number of seals.
\<close>

definition continues :: "Identifier \<Rightarrow> IncorporatedResultSeal \<Rightarrow> bool" where
  "continues lastResultID candidate \<longleftrightarrow>
     PreviousResultID (Result (IncorporatedResult candidate)) = lastResultID"

fun selectSeals :: "IncorporatedResultSeal list \<Rightarrow> nat \<Rightarrow> Identifier
    \<Rightarrow> IncorporatedResultSeal list" where
  "selectSeals candidates 0 lastResultID = []"
| "selectSeals candidates (Suc n) lastResultID =
     (case find (continues lastResultID) candidates of
        None \<Rightarrow> []
      | Some next_seal \<Rightarrow>
          next_seal # selectSeals candidates n (Seal_ResultID (Seal next_seal)))"

text \<open>
  Modelled from the spec: step 3 of section 4.8, seals for blocks that are not on the
  fork are skipped.
\<close>

definition sealCandidates :: "Builder \<Rightarrow> Block list \<Rightarrow> IncorporatedResultSeal list" where
  "sealCandidates b fork =
     filter (\<lambda>candidate. Seal_BlockID (Seal candidate) \<in> set (forkIDs fork)) (sealPool b)"

definition getInsertableSeals :: "Builder \<Rightarrow> Block list \<Rightarrow> Seal \<Rightarrow> IncorporatedResultSeal list" where
  "getInsertableSeals b fork lastSeal =
     selectSeals (sealCandidates b fork) (unat (maxSealCount b)) (Seal_ResultID lastSeal)"

text \<open>
  Modelled from the spec: \<open>ReachableReceipts\<close> of the execution tree
  (section 4.1): the receipts whose result descends from the given result, level by
  level (parents before children), restricted to receipts for blocks that satisfy the
  block filter and that satisfy the receipt filter. The depth of the tree is at most
  the number of its receipts.
\<close>

fun reachableFrom :: "nat \<Rightarrow> (ExecutionReceipt \<times> Header) list \<Rightarrow> (Header \<Rightarrow> bool)
    \<Rightarrow> (ExecutionReceipt \<Rightarrow> bool) \<Rightarrow> Identifier list \<Rightarrow> ExecutionReceipt list" where
  "reachableFrom 0 tree blockFilter receiptFilter frontier = []"
| "reachableFrom (Suc n) tree blockFilter receiptFilter frontier =
     (let children = filter (\<lambda>(receipt, header).
                        PreviousResultID (ExecutionResult receipt) \<in> set frontier
                        \<and> blockFilter header) tree
      in if children = [] then []
         else filter receiptFilter (map fst children)
              @ reachableFrom n tree blockFilter receiptFilter
                  (remdups (map (\<lambda>(receipt, header). ResultID (ExecutionResult receipt))
                     children)))"

definition ReachableReceipts :: "(ExecutionReceipt \<times> Header) list \<Rightarrow> Identifier
    \<Rightarrow> (Header \<Rightarrow> bool) \<Rightarrow> (ExecutionReceipt \<Rightarrow> bool) \<Rightarrow> ExecutionReceipt list" where
  "ReachableReceipts tree resultID blockFilter receiptFilter =
     reachableFrom (length tree) tree blockFilter receiptFilter [resultID]"

text \<open>
  Modelled from the spec: step 4 of section 4.8. The block filter passes the blocks of
  the fork from the last sealed block to the parent; the receipt filter passes a
  receipt that is not already incorporated on this fork, is not for an already sealed
  block (a block that storage knows and that is above the last sealed block), and
  validates.
\<close>

definition blockFilter :: "Block list \<Rightarrow> Seal \<Rightarrow> Header \<Rightarrow> bool" where
  "blockFilter fork lastSeal header \<longleftrightarrow>
     HeaderID header \<in> set (forkIDs fork) \<or> HeaderID header = Seal_BlockID lastSeal"

definition forSealedBlock :: "Builder \<Rightarrow> Seal \<Rightarrow> ExecutionReceipt \<Rightarrow> bool" where
  "forSealedBlock b lastSeal receipt =
     (case (blockDB b (BlockID (ExecutionResult receipt)), blockDB b (Seal_BlockID lastSeal)) of
        (Some block, Some sealed) \<Rightarrow>
          Header_Height (Block_Header block) \<le> Header_Height (Block_Header sealed)
      | _ \<Rightarrow> True)"

definition receiptFilter :: "Builder \<Rightarrow> Block list \<Rightarrow> Seal \<Rightarrow> ExecutionReceipt \<Rightarrow> bool" where
  "receiptFilter b fork lastSeal receipt \<longleftrightarrow>
     Meta receipt \<notin> set (incorporatedReceipts fork)
     \<and> \<not> forSealedBlock b lastSeal receipt
     \<and> validates b receipt"

definition getInsertableReceipts :: "Builder \<Rightarrow> Block list \<Rightarrow> Seal \<Rightarrow> ExecutionReceipt list" where
  "getInsertableReceipts b fork lastSeal =
     take (unat (maxReceiptCount b))
       (ReachableReceipts (recPool b) (Seal_ResultID lastSeal)
          (blockFilter fork lastSeal) (receiptFilter b fork lastSeal))"

text \<open>
  Modelled from the spec: step 4 of section 4.8. The payload holds the meta of every
  selected receipt and, if its result was not previously incorporated on this fork, the
  full result.
\<close>

definition toInsertableResults :: "Block list \<Rightarrow> ExecutionReceipt list \<Rightarrow> ExecutionResult list" where
  "toInsertableResults fork receipts =
     map ExecutionResult
       (filter (\<lambda>receipt. ResultID (ExecutionResult receipt) \<notin> set (incorporatedResults fork))
          receipts)"

text \<open>
  Modelled from the spec: \<open>BuildOn\<close> is not under src/. The fork that ends at the
  parent: the last seal as of the parent, and the blocks
  from the parent back to the last sealed block, which is not part of them.
\<close>

definition forkOf :: "Builder \<Rightarrow> Identifier \<Rightarrow> string + Seal \<times> Block list" where
  "forkOf b parentID =
     (case sealDB b parentID of
        Inl err \<Rightarrow> Inl err
      | Inr lastSeal \<Rightarrow>
          (case (blockDB b parentID, blockDB b (Seal_BlockID lastSeal)) of
             (Some parent, Some sealed) \<Rightarrow>
               (case walkBack (blockDB b)
                       (unat (Header_Height (Block_Header parent))
                          - unat (Header_Height (Block_Header sealed))) parentID of
                  Inl err \<Rightarrow> Inl err
                | Inr fork \<Rightarrow> Inr (lastSeal, fork))
           | _ \<Rightarrow> Inl ''could not get block: not found''))"

definition BuildOn :: "Builder \<Rightarrow> Identifier \<Rightarrow> string + Payload" where
  "BuildOn b parentID =
     (case forkOf b parentID of
        Inl err \<Rightarrow> Inl err
      | Inr (lastSeal, fork) \<Rightarrow>
          (let insertableSeals = getInsertableSeals b fork lastSeal;
               insertableReceipts = getInsertableReceipts b fork lastSeal
           in Inr \<lparr> Receipts = map Meta insertableReceipts,
                    Results = toInsertableResults fork insertableReceipts,
                    Seals = map Seal insertableSeals \<rparr>))"

text \<open>
  A list of seals is a chain that continues from a result when the incorporated result
  of each seal has as its previous result the result the seal before it seals, and the
  first one the given result. \<open>chainEnd\<close> is the result the chain ends at.
\<close>

fun sealChain :: "Identifier \<Rightarrow> IncorporatedResultSeal list \<Rightarrow> bool" where
  "sealChain lastResultID [] = True"
| "sealChain lastResultID (s # ss) =
     (continues lastResultID s \<and> sealChain (Seal_ResultID (Seal s)) ss)"

fun chainEnd :: "Identifier \<Rightarrow> IncorporatedResultSeal list \<Rightarrow> Identifier" where
  "chainEnd lastResultID [] = lastResultID"
| "chainEnd lastResultID (s # ss) = chainEnd (Seal_ResultID (Seal s)) ss"

subsection \<open>A concrete fork\<close>

text \<open>
  The fork \<open>S <- A <- B\<close> with \<open>S\<close> sealed. \<open>A\<close> incorporates a receipt and
  the result for \<open>S\<close>, \<open>B\<close> a receipt and the result for \<open>A\<close>. The seal mempool
  holds seals for \<open>A\<close> and \<open>B\<close>; the execution tree holds the two incorporated
  receipts, a second receipt for the result of \<open>A\<close> and a receipt for \<open>B\<close>.
\<close>

definition resultS :: ExecutionResult where
  "resultS = \<lparr> ResultID = 100, PreviousResultID = 99, BlockID = 10 \<rparr>"

definition resultA :: ExecutionResult where
  "resultA = \<lparr> ResultID = 101, PreviousResultID = 100, BlockID = 11 \<rparr>"

definition resultB :: ExecutionResult where
  "resultB = \<lparr> ResultID = 102, PreviousResultID = 101, BlockID = 12 \<rparr>"

definition receiptOf :: "Identifier \<Rightarrow> ExecutionResult \<Rightarrow> ExecutionReceipt" where
  "receiptOf executor res =
     \<lparr> ExecutorID = executor, ExecutionResult = res, Spocks = [], ExecutorSignature = executor \<rparr>"

definition headerS :: Header where
  "headerS = \<lparr> HeaderID = 10, ParentID = 9, Header_Height = 1 \<rparr>"

definition headerA :: Header where
  "headerA = \<lparr> HeaderID = 11, ParentID = 10, Header_Height = 2 \<rparr>"

definition headerB :: Header where
  "headerB = \<lparr> HeaderID = 12, ParentID = 11, Header_Height = 3 \<rparr>"

definition blockS :: Block where
  "blockS = \<lparr> Block_Header = headerS,
              Block_Payload = \<lparr> Receipts = [], Results = [], Seals = [] \<rparr> \<rparr>"

definition blockA :: Block where
  "blockA = \<lparr> Block_Header = headerA,
              Block_Payload = \<lparr> Receipts = [Meta (receiptOf 3 resultS)], Results = [resultS],
                                Seals = [] \<rparr> \<rparr>"

definition blockB :: Block where
  "blockB = \<lparr> Block_Header = headerB,
              Block_Payload = \<lparr> Receipts = [Meta (receiptOf 3 resultA)], Results = [resultA],
                                Seals = [] \<rparr> \<rparr>"

definition sealFor :: "ExecutionResult \<Rightarrow> IncorporatedResultSeal" where
  "sealFor res =
     \<lparr> Seal = \<lparr> Seal_BlockID = BlockID res, Seal_ResultID = ResultID res \<rparr>,
       IncorporatedResult = \<lparr> IncorporatedBlockID = BlockID res, Result = res \<rparr> \<rparr>"

definition exampleBuilder :: "64 word \<Rightarrow> Builder" where
  "exampleBuilder sealLimit =
     \<lparr> blockDB = [10 \<mapsto> blockS, 11 \<mapsto> blockA, 12 \<mapsto> blockB],
       sealDB = (\<lambda>blockID. Inr \<lparr> Seal_BlockID = 10, Seal_ResultID = 100 \<rparr>),
       sealPool = [sealFor resultB, sealFor resultA],
       recPool = [(receiptOf 3 resultS, headerS), (receiptOf 3 resultA, headerA),
                  (receiptOf 2 resultA, headerA), (receiptOf 3 resultB, headerB)],
       maxSealCount = sealLimit,
       maxReceiptCount = 5,
       validates = (\<lambda>receipt. True) \<rparr>"

section \<open>The seal mempool wrapper: properties\<close>

lemma length_groupBy: "length (groupBy f rs) = card (f ` set rs)"
  by (simp add: groupBy_def length_remdups_card_conv)

lemma map_of_tabulate:
  "map_of (map (\<lambda>j. (j, g j)) ks) k = (if k \<in> set ks then Some (g k) else None)"
  by (induction ks) auto

lemma map_of_groupBy:
  "map_of (groupBy f rs) k = (if k \<in> f ` set rs then Some (filter (\<lambda>r. f r = k) rs) else None)"
  unfolding groupBy_def map_of_tabulate by simp

lemma GetGroup_GroupByResultID:
  "GetGroup (GroupByResultID rs) k = filter (\<lambda>r. ResultID (ExecutionResult r) = k) rs"
proof (cases "k \<in> (\<lambda>r. ResultID (ExecutionResult r)) ` set rs")
  case True
  then show ?thesis
    by (simp add: GetGroup_def GroupByResultID_def map_of_groupBy)
next
  case False
  then have "filter (\<lambda>r. ResultID (ExecutionResult r) = k) rs = []"
    by (auto simp: filter_empty_conv)
  with False show ?thesis
    by (simp add: GetGroup_def GroupByResultID_def map_of_groupBy)
qed

lemma resultHasMultipleReceipts_store:
  assumes "receiptsDB ir = Some db"
  shows "resultHasMultipleReceipts ir incRes
           = Inr (2 \<le> card (executorsCommitting db (Result incRes)))"
proof (cases "db (BlockID (Result incRes))")
  case (Inl err)
  with assms show ?thesis
    by (simp add: resultHasMultipleReceipts_def executorsCommitting_def)
next
  case (Inr receipts)
  have "set (filter (\<lambda>r. ResultID (ExecutionResult r) = k) receipts)
          = {r \<in> set receipts. ResultID (ExecutionResult r) = k}" for k
    by auto
  with assms Inr show ?thesis
    by (simp add: resultHasMultipleReceipts_def executorsCommitting_def Let_def
        GetGroup_GroupByResultID NumberGroups_def GroupByExecutorID_def length_groupBy)
qed

text \<open>
  The gate on a wrapper whose receipts store is set: \<open>ByID\<close> returns the seal of the
  wrapped mempool exactly when at least two distinct executors have a receipt in the
  store that commits to the seal's result, and \<open>(nil, false)\<close> in every other case
  (no such seal, fewer than two executors, or a read error of the store).
\<close>

lemma ByID_with_store:
  assumes "receiptsDB ir = Some db"
  shows "ByID ir ident =
           Inr (case seals ir ident of
                  None \<Rightarrow> None
                | Some seal \<Rightarrow>
                    if 2 \<le> card (executorsCommitting db (Result (IncorporatedResult seal)))
                    then Some seal else None)"
  using assms
  by (simp add: ByID_def resultHasMultipleReceipts_store split: option.splits)

text \<open>
  Claim C1. For every identifier, \<open>ByID\<close> of the seal mempool wrapper returns a seal
  only if the receipts store holds receipts of at least two distinct executors for the
  seal's result, and returns \<open>(nil, false)\<close> in every other case. On the wrapper that
  the package's constructor \<open>NewIncorporatedResultSeals\<close> builds this fails: the
  constructor leaves \<open>receiptsDB\<close> nil, so for every identifier under which the wrapped
  mempool holds a seal, \<open>ByID\<close> neither returns the seal nor \<open>(nil, false)\<close>: the
  call \<open>ir.receiptsDB.ByBlockID\<close> panics.
\<close>

theorem ByID_constructed_wrapper_panics:
  "ByID (NewIncorporatedResultSeals (pool(ident \<mapsto> seal))) ident = Inl NilPointerDereference"
  by (simp add: ByID_def NewIncorporatedResultSeals_def resultHasMultipleReceipts_def)

section \<open>The chunk verifier: properties\<close>

lemma touchInv_empty: "touchInv psmt cdp emptyReadState"
  by (simp add: touchInv_def emptyReadState_def)

lemma getRegister_touchInv:
  assumes "touchInv psmt cdp st"
  shows "touchInv psmt cdp (snd (getRegister L psmt cdp r st))"
proof (cases "ledger_NewQuery L (StartState cdp) [RegisterIDToKey r]")
  case (Some err)
  with assms show ?thesis by (simp add: getRegister_def)
next
  case None
  show ?thesis
  proof (cases "psmt_Get psmt (StartState cdp) (RegisterIDToKey r)")
    case (Inr val)
    with None assms show ?thesis
      by (auto simp: getRegister_def touchInv_def outsideProof_def fun_eq_iff)
  next
    case (Inl lerr)
    show ?thesis
    proof (cases lerr)
      case (OtherLedgerError err)
      with None Inl assms show ?thesis
        by (auto simp: getRegister_def touchInv_def outsideProof_def fun_eq_iff)
    next
      case (ErrMissingKeys ks)
      with None Inl assms show ?thesis
        by (auto simp: getRegister_def touchInv_def outsideProof_def fun_eq_iff update_conv'
            distinct_update)
    qed
  qed
qed

lemma view_Peek_touchInv:
  assumes "touchInv psmt cdp st"
  shows "touchInv psmt cdp (snd (view_Peek (getRegister L psmt cdp) v r st))"
  using assms getRegister_touchInv [OF assms, of L r]
  by (simp add: view_Peek_def split: option.splits)

lemma view_Get_touchInv:
  assumes "touchInv psmt cdp st"
  shows "touchInv psmt cdp (snd (snd (view_Get (view_Peek (getRegister L psmt cdp) p) v r st)))"
  using assms view_Peek_touchInv [OF assms, of L p r]
  by (auto simp: view_Get_def split: option.splits prod.splits sum.splits)

lemma run_touchInv:
  "touchInv psmt cdp st \<Longrightarrow>
   touchInv psmt cdp (snd (snd (run ex (view_Peek (getRegister L psmt cdp) p) v st)))"
proof (induction ex arbitrary: v st)
  case (Finish err)
  then show ?case by simp
next
  case (GetRegister r continue)
  obtain res v' st' where g: "view_Get (view_Peek (getRegister L psmt cdp) p) v r st = (res, v', st')"
    by (cases "view_Get (view_Peek (getRegister L psmt cdp) p) v r st") auto
  then have "touchInv psmt cdp st'"
    using view_Get_touchInv [OF GetRegister.prems, of L p v r] by simp
  then have "touchInv psmt cdp (snd (snd (run (continue res) (view_Peek (getRegister L psmt cdp) p) v' st')))"
    by (rule GetRegister.IH [OF rangeI])
  with g show ?case by simp
next
  case (SetRegister r val continue)
  then show ?case by simp
qed

lemma executeTransactions_touchInv:
  "touchInv psmt cdp st \<Longrightarrow>
   executeTransactions fcv L psmt cdp ctx i txs chunkView st = Inr (chunkView', st') \<Longrightarrow>
   touchInv psmt cdp st'"
proof (induction txs arbitrary: i chunkView st)
  case Nil
  then show ?case by simp
next
  case (Cons tx txs)
  obtain err txView st1 where
    r: "run (vm fcv ctx tx) (view_Peek (getRegister L psmt cdp) chunkView) NewView st = (err, txView, st1)"
    by (cases "run (vm fcv ctx tx) (view_Peek (getRegister L psmt cdp) chunkView) NewView st") auto
  have inv1: "touchInv psmt cdp st1"
    using run_touchInv [OF Cons.prems(1), of "vm fcv ctx tx" L chunkView NewView] r by simp
  from Cons.prems(2) r obtain cv1 where
    "executeTransactions fcv L psmt cdp ctx (Suc i) txs cv1 st1 = Inr (chunkView', st')"
    by (auto split: option.splits sum.splits)
  with inv1 show ?case by (rule Cons.IH)
qed

lemma unknownRegTouch_reads:
  assumes "touchInv psmt cdp st"
  shows "set (map snd (unknownRegTouch st))
           = RegisterIDToKey ` {r \<in> set (reads st). outsideProof psmt cdp r}"
proof -
  have d: "distinct (map fst (unknownRegTouch st))"
    using assms by (simp add: touchInv_def)
  have m: "(r, k) \<in> set (unknownRegTouch st) \<longleftrightarrow>
        r \<in> set (reads st) \<and> outsideProof psmt cdp r \<and> k = RegisterIDToKey r" for r k
  proof -
    have "map_of (unknownRegTouch st) r
        = (if r \<in> set (reads st) \<and> outsideProof psmt cdp r then Some (RegisterIDToKey r) else None)"
      using assms by (simp add: touchInv_def)
    then show ?thesis
      unfolding map_of_eq_Some_iff [OF d, of r k, symmetric] by (auto split: if_splits)
  qed
  show ?thesis
  proof (intro set_eqI iffI)
    fix k assume "k \<in> set (map snd (unknownRegTouch st))"
    then obtain r where "(r, k) \<in> set (unknownRegTouch st)" by auto
    then show "k \<in> RegisterIDToKey ` {r \<in> set (reads st). outsideProof psmt cdp r}"
      using m by blast
  next
    fix k assume "k \<in> RegisterIDToKey ` {r \<in> set (reads st). outsideProof psmt cdp r}"
    then obtain r where "(r, k) \<in> set (unknownRegTouch st)"
      using m by blast
    then show "k \<in> set (map snd (unknownRegTouch st))" by force
  qed
qed

lemmas verifier_example_defs = regA_def regB_def examplePsmt_def exampleLedger_def exampleVM_def
  exampleContext_def exampleVerifier_def exampleChunk_def exampleResult_def exampleTransaction_def
  exampleChunkDataPack_def NewChunkVerifier_def

lemmas verifier_defs = verifyTransactionsInContext_def getRegister_def view_Get_def view_Peek_def
  view_Set_def MergeView_def NewView_def emptyReadState_def RegisterUpdates_def SpockSecret_def
  outsideProof_def

lemma example_run_covered:
  "executeTransactions exampleVerifier exampleLedger examplePsmt exampleChunkDataPack exampleContext 0
     [exampleTransaction 0] NewView emptyReadState
   = Inr (\<lparr> delta = [(regA, ''22'')], touches = [regA, regA] \<rparr>,
          \<lparr> unknownRegTouch = [], reads = [regA] \<rparr>)"
  by (simp add: verifier_example_defs verifier_defs)

lemma example_run_uncovered:
  "executeTransactions exampleVerifier exampleLedger examplePsmt exampleChunkDataPack exampleContext 0
     [exampleTransaction 1] NewView emptyReadState
   = Inr (\<lparr> delta = [], touches = [regB] \<rparr>,
          \<lparr> unknownRegTouch = [(regB, RegisterIDToKey regB)], reads = [regB] \<rparr>)"
  by (simp add: verifier_example_defs verifier_defs)

text \<open>
  Claim C3. \<open>Verify\<close> on a verifiable chunk whose \<open>IsSystemChunk\<close> flag is true
  returns \<open>(nil, nil, error)\<close>, and \<open>SystemChunkVerify\<close> on one whose flag is false
  does too: each refuses the other's chunk kind with an error, never a fault or a SPoCK
  secret, whatever the machine, the ledger and the rest of the chunk are (nothing is
  executed).
\<close>

theorem wrong_chunk_kind_refused:
  "Verify fcv L (vc\<lparr> IsSystemChunk := True \<rparr>)
     = (None, None, Some ''wrong method invoked for verifying system chunk'')
   \<and> SystemChunkVerify fcv L (vc\<lparr> IsSystemChunk := False \<rparr>)
     = (None, None, Some ''wrong method invoked for verifying non-system chunk'')"
  by (simp add: Verify_def SystemChunkVerify_def)

lemma no_touch_iff:
  assumes "touchInv psmt cdp st"
  shows "length (unknownRegTouch st) > 0 \<longleftrightarrow> {r \<in> set (reads st). outsideProof psmt cdp r} \<noteq> {}"
proof -
  have "unknownRegTouch st \<noteq> [] \<longleftrightarrow> set (map snd (unknownRegTouch st)) \<noteq> {}"
    by simp
  then show ?thesis
    unfolding unknownRegTouch_reads [OF assms] by simp
qed

lemma executed_touchInv:
  "executeTransactions fcv L psmt cdp ctx 0 txs NewView emptyReadState = Inr (chunkView, st)
   \<Longrightarrow> touchInv psmt cdp st"
  using executeTransactions_touchInv [OF touchInv_empty] by blast

text \<open>
  Claim C2. If the verifier returns \<open>(spock, nil, nil)\<close>, a SPoCK secret with no fault
  and no error, then the chunk data pack was given, the partial ledger was built from
  its proof, all transactions ran, no register read during the execution touched a path
  outside the proof, and applying the register updates of the chunk view to the partial
  ledger gives a root equal to the declared end state. \<open>Verify\<close> and
  \<open>SystemChunkVerify\<close> return what \<open>verifyTransactionsInContext\<close> returns.
\<close>

theorem verification_sound:
  assumes ok: "verifyTransactionsInContext fcv L ctx chunk chunkDataPack result transactions endState
                 = (Some spock, None, None)"
  shows "\<exists>cdp psmt chunkView st.
           chunkDataPack = Some cdp
         \<and> partial_NewLedger L (Proof cdp) (StartState cdp) = Inr psmt
         \<and> executeTransactions fcv L psmt cdp ctx 0 transactions NewView emptyReadState
             = Inr (chunkView, st)
         \<and> {r \<in> set (reads st). outsideProof psmt cdp r} = {}
         \<and> psmt_Set psmt (StartState cdp)
              (map RegisterIDToKey (fst (RegisterUpdates (delta chunkView))))
              (snd (RegisterUpdates (delta chunkView))) = Inr endState
         \<and> spock = SpockSecret chunkView"
proof -
  from ok obtain cdp where cdp: "chunkDataPack = Some cdp"
    by (cases chunkDataPack) (auto simp: verifyTransactionsInContext_def Let_def)
  from ok cdp obtain psmt where psmt: "partial_NewLedger L (Proof cdp) (StartState cdp) = Inr psmt"
    by (cases "partial_NewLedger L (Proof cdp) (StartState cdp)")
       (auto simp: verifyTransactionsInContext_def Let_def)
  from ok cdp psmt obtain chunkView st where
    ex: "executeTransactions fcv L psmt cdp ctx 0 transactions NewView emptyReadState = Inr (chunkView, st)"
    by (cases "executeTransactions fcv L psmt cdp ctx 0 transactions NewView emptyReadState")
       (auto simp: verifyTransactionsInContext_def Let_def)
  have inv: "touchInv psmt cdp st"
    using ex by (rule executed_touchInv)
  from ok cdp psmt ex have none: "\<not> length (unknownRegTouch st) > 0"
    by (auto simp: verifyTransactionsInContext_def Let_def split: if_splits)
  then have covered: "{r \<in> set (reads st). outsideProof psmt cdp r} = {}"
    using no_touch_iff [OF inv] by simp
  from ok cdp psmt ex none
  have "psmt_Set psmt (StartState cdp)
              (map RegisterIDToKey (fst (RegisterUpdates (delta chunkView))))
              (snd (RegisterUpdates (delta chunkView))) = Inr endState
         \<and> spock = SpockSecret chunkView"
    by (auto simp: verifyTransactionsInContext_def Let_def
             split: prod.splits option.splits sum.splits LedgerError.splits if_splits)
  with cdp psmt ex covered show ?thesis by blast
qed

theorem verification_sound_witness:
  "verifyTransactionsInContext exampleVerifier exampleLedger exampleContext exampleChunk
     (Some exampleChunkDataPack) exampleResult [exampleTransaction 0] 3
     = (Some [regA, regA], None, None)
   \<and> (\<exists>cdp psmt chunkView st.
           Some exampleChunkDataPack = Some cdp
         \<and> partial_NewLedger exampleLedger (Proof cdp) (StartState cdp) = Inr psmt
         \<and> executeTransactions exampleVerifier exampleLedger psmt cdp exampleContext 0
              [exampleTransaction 0] NewView emptyReadState = Inr (chunkView, st)
         \<and> {r \<in> set (reads st). outsideProof psmt cdp r} = {}
         \<and> psmt_Set psmt (StartState cdp)
              (map RegisterIDToKey (fst (RegisterUpdates (delta chunkView))))
              (snd (RegisterUpdates (delta chunkView))) = Inr 3
         \<and> [regA, regA] = SpockSecret chunkView)"
proof -
  have ok: "verifyTransactionsInContext exampleVerifier exampleLedger exampleContext exampleChunk
     (Some exampleChunkDataPack) exampleResult [exampleTransaction 0] 3
     = (Some [regA, regA], None, None)"
    by (simp add: verifier_example_defs verifier_defs Let_def)
  from verification_sound [OF ok] ok show ?thesis by blast
qed

text \<open>
  Claim C4. When the execution of a chunk reads at least one register outside the
  proof of the chunk data pack, the read is recorded in \<open>unknownRegTouch\<close>, and after
  all transactions have run the verifier returns
  \<open>(nil, CFMissingRegisterTouch(keys), nil)\<close>, where \<open>keys\<close> are the keys of the
  registers read outside the proof; no SPoCK secret is returned.
\<close>

theorem missing_register_touch_fault:
  assumes ledger: "partial_NewLedger L (Proof cdp) (StartState cdp) = Inr psmt"
    and ran: "executeTransactions fcv L psmt cdp ctx 0 transactions NewView emptyReadState
                = Inr (chunkView, st)"
    and read: "r \<in> set (reads st)"
    and outside: "outsideProof psmt cdp r"
  shows "\<exists>keys.
           verifyTransactionsInContext fcv L ctx chunk (Some cdp) result transactions endState
             = (None, Some (CFMissingRegisterTouch keys (Index chunk) (ResultID result)), None)
         \<and> set keys = RegisterIDToKey ` {r \<in> set (reads st). outsideProof psmt cdp r}
         \<and> RegisterIDToKey r \<in> set keys
         \<and> (r, RegisterIDToKey r) \<in> set (unknownRegTouch st)"
proof -
  have inv: "touchInv psmt cdp st"
    using ran by (rule executed_touchInv)
  have keys: "set (map snd (unknownRegTouch st))
      = RegisterIDToKey ` {r \<in> set (reads st). outsideProof psmt cdp r}"
    using inv by (rule unknownRegTouch_reads)
  have some: "length (unknownRegTouch st) > 0"
    using no_touch_iff [OF inv] read outside by blast
  have res: "verifyTransactionsInContext fcv L ctx chunk (Some cdp) result transactions endState
      = (None, Some (CFMissingRegisterTouch (map snd (unknownRegTouch st)) (Index chunk)
                       (ResultID result)), None)"
    using ledger ran some by (simp add: verifyTransactionsInContext_def Let_def)
  have mem: "RegisterIDToKey r \<in> set (map snd (unknownRegTouch st))"
    unfolding keys using read outside by blast
  have "map_of (unknownRegTouch st) r = Some (RegisterIDToKey r)"
    using inv read outside by (simp add: touchInv_def)
  then have rec: "(r, RegisterIDToKey r) \<in> set (unknownRegTouch st)"
    by (rule map_of_SomeD)
  from res keys mem rec show ?thesis by blast
qed

theorem missing_register_touch_fault_witness:
  "regB \<in> set (reads \<lparr> unknownRegTouch = [(regB, RegisterIDToKey regB)], reads = [regB] \<rparr>)
   \<and> outsideProof examplePsmt exampleChunkDataPack regB
   \<and> (\<exists>keys.
        verifyTransactionsInContext exampleVerifier exampleLedger exampleContext exampleChunk
          (Some exampleChunkDataPack) exampleResult [exampleTransaction 1] 3
          = (None, Some (CFMissingRegisterTouch keys (Index exampleChunk) (ResultID exampleResult)),
             None)
        \<and> RegisterIDToKey regB \<in> set keys)"
proof -
  have ledger: "partial_NewLedger exampleLedger (Proof exampleChunkDataPack)
      (StartState exampleChunkDataPack) = Inr examplePsmt"
    by (simp add: exampleLedger_def)
  have read: "regB \<in> set (reads \<lparr> unknownRegTouch = [(regB, RegisterIDToKey regB)], reads = [regB] \<rparr>)"
    by simp
  have outside: "outsideProof examplePsmt exampleChunkDataPack regB"
    by (simp add: verifier_example_defs outsideProof_def)
  from missing_register_touch_fault [OF ledger example_run_uncovered read outside,
      of exampleChunk exampleResult 3] read outside
  show ?thesis by blast
qed

text \<open>
  Claim C5. When the execution of a chunk reads only registers the proof covers, and
  the root computed by applying the delta of the chunk view to the partial ledger
  differs from the declared end state, the verifier returns
  \<open>(nil, CFNonMatchingFinalState(computed root, declared end state), nil)\<close>: a fault
  that carries both state commitments, with a nil error.
\<close>

theorem non_matching_final_state_fault:
  assumes ledger: "partial_NewLedger L (Proof cdp) (StartState cdp) = Inr psmt"
    and ran: "executeTransactions fcv L psmt cdp ctx 0 transactions NewView emptyReadState
                = Inr (chunkView, st)"
    and covered: "{r \<in> set (reads st). outsideProof psmt cdp r} = {}"
    and updates: "RegisterUpdates (delta chunkView) = (regs, vals)"
    and update: "ledger_NewUpdate L (StartState cdp) (map RegisterIDToKey regs) vals = None"
    and root: "psmt_Set psmt (StartState cdp) (map RegisterIDToKey regs) vals = Inr root"
    and differs: "root \<noteq> endState"
  shows "verifyTransactionsInContext fcv L ctx chunk (Some cdp) result transactions endState
           = (None, Some (CFNonMatchingFinalState root endState (Index chunk) (ResultID result)),
              None)"
proof -
  have inv: "touchInv psmt cdp st"
    using ran by (rule executed_touchInv)
  have none: "\<not> length (unknownRegTouch st) > 0"
    using no_touch_iff [OF inv] covered by simp
  show ?thesis
    using ledger ran none updates update root differs
    by (simp add: verifyTransactionsInContext_def Let_def)
qed

theorem non_matching_final_state_fault_witness:
  "verifyTransactionsInContext exampleVerifier exampleLedger exampleContext exampleChunk
     (Some exampleChunkDataPack) exampleResult [exampleTransaction 0] 99
     = (None, Some (CFNonMatchingFinalState 3 99 (Index exampleChunk) (ResultID exampleResult)),
        None)"
proof -
  have ledger: "partial_NewLedger exampleLedger (Proof exampleChunkDataPack)
      (StartState exampleChunkDataPack) = Inr examplePsmt"
    by (simp add: exampleLedger_def)
  have covered: "{r \<in> set (reads \<lparr> unknownRegTouch = [], reads = [regA] \<rparr>).
      outsideProof examplePsmt exampleChunkDataPack r} = {}"
    by (simp add: verifier_example_defs outsideProof_def)
  have updates: "RegisterUpdates (delta \<lparr> delta = [(regA, ''22'')], touches = [regA, regA] \<rparr>)
      = ([regA], [''22''])"
    by (simp add: RegisterUpdates_def)
  have update: "ledger_NewUpdate exampleLedger (StartState exampleChunkDataPack)
      (map RegisterIDToKey [regA]) [''22''] = None"
    by (simp add: exampleLedger_def)
  have root: "psmt_Set examplePsmt (StartState exampleChunkDataPack)
      (map RegisterIDToKey [regA]) [''22''] = Inr 3"
    by (simp add: examplePsmt_def exampleChunkDataPack_def)
  have differs: "(3::nat) \<noteq> 99" by simp
  from non_matching_final_state_fault [OF ledger example_run_covered covered updates update root differs]
  show ?thesis .
qed

section \<open>The chunk data pack requester: properties\<close>

lemmas example_defs = sealedRequest_def openRequest_def exampleEngine_def exampleWorld_def
  exampleChunkDataPack_def

lemma keys_Rem:
  "set (map entryKey (snd (ChunkRequests_Rem pool c))) = set (map entryKey pool) - {c}"
  by (auto simp: ChunkRequests_Rem_def)

lemma keys_UpdateRequestHistory:
  "map entryKey (snd (UpdateRequestHistory pool c f)) = map entryKey pool"
  by (auto simp: UpdateRequestHistory_def entryKey_def split: option.splits prod.splits)

lemma requestChunkDataPack_pending:
  "pendingRequests (snd (requestChunkDataPack e r w)) = pendingRequests w"
  by (simp add: requestChunkDataPack_def Let_def split: option.splits)

lemma requestChunkDataPack_handlerCalls:
  "handlerCalls (snd (requestChunkDataPack e r w)) = handlerCalls w"
  by (simp add: requestChunkDataPack_def Let_def split: option.splits)

lemma requestChunkDataPack_publishCalls:
  "\<exists>m t. publishCalls (snd (requestChunkDataPack e r w)) = publishCalls w @ [(m, t)]
        \<and> CDR_ChunkID m = ChunkID r"
  by (simp add: requestChunkDataPack_def Let_def split: option.splits)

lemma onRequestDispatched_logs:
  "handlerCalls (snd (onRequestDispatched e c w)) = handlerCalls w"
  "publishCalls (snd (onRequestDispatched e c w)) = publishCalls w"
  "map entryKey (pendingRequests (snd (onRequestDispatched e c w))) = map entryKey (pendingRequests w)"
  using keys_UpdateRequestHistory[of "pendingRequests w" c "reqUpdaterFunc e"]
  by (auto simp: onRequestDispatched_def split: prod.splits)

lemma step_keys:
  "set (map entryKey (pendingRequests (handleChunkDataPackRequest e r h w)))
     = set (map entryKey (pendingRequests w)) - (if Height r \<le> h then {ChunkID r} else {})"
proof (cases "Height r \<le> h")
  case True
  then show ?thesis
    by (auto simp: handleChunkDataPackRequest_def request_ID_def ChunkRequests_Rem_def)
next
  case False
  show ?thesis
  proof (cases "canDispatchRequest e (ChunkID r) w")
    case False
    with \<open>\<not> Height r \<le> h\<close> show ?thesis by (simp add: handleChunkDataPackRequest_def)
  next
    case True
    obtain er w1 where rq: "requestChunkDataPack e r w = (er, w1)" by force
    then have p: "pendingRequests w1 = pendingRequests w"
      using requestChunkDataPack_pending[of e r w] by simp
    show ?thesis
      using \<open>\<not> Height r \<le> h\<close> True rq p onRequestDispatched_logs(3)[of e "ChunkID r" w1]
      by (cases er) (simp_all add: handleChunkDataPackRequest_def)
  qed
qed

lemma step_handlerCalls:
  "handlerCalls (handleChunkDataPackRequest e r h w)
     = handlerCalls w @ (if Height r \<le> h then [NotifyChunkDataPackSealed (ChunkID r)] else [])"
proof (cases "Height r \<le> h")
  case True
  then show ?thesis
    by (simp add: handleChunkDataPackRequest_def request_ID_def split: prod.splits)
next
  case False
  show ?thesis
  proof (cases "canDispatchRequest e (ChunkID r) w")
    case False
    with \<open>\<not> Height r \<le> h\<close> show ?thesis by (simp add: handleChunkDataPackRequest_def)
  next
    case True
    obtain er w1 where rq: "requestChunkDataPack e r w = (er, w1)" by force
    then have p: "handlerCalls w1 = handlerCalls w"
      using requestChunkDataPack_handlerCalls[of e r w] by simp
    show ?thesis
      using \<open>\<not> Height r \<le> h\<close> True rq p onRequestDispatched_logs(1)[of e "ChunkID r" w1]
      by (cases er) (simp_all add: handleChunkDataPackRequest_def)
  qed
qed

lemma step_publishCalls:
  "\<exists>ys. publishCalls (handleChunkDataPackRequest e r h w) = publishCalls w @ ys
       \<and> CDR_ChunkID ` fst ` set ys \<subseteq> (if Height r \<le> h then {} else {ChunkID r})"
proof (cases "Height r \<le> h")
  case True
  then show ?thesis
    by (simp add: handleChunkDataPackRequest_def request_ID_def split: prod.splits)
next
  case False
  show ?thesis
  proof (cases "canDispatchRequest e (ChunkID r) w")
    case False
    with \<open>\<not> Height r \<le> h\<close> show ?thesis by (simp add: handleChunkDataPackRequest_def)
  next
    case True
    obtain er w1 where rq: "requestChunkDataPack e r w = (er, w1)" by force
    obtain m t where p: "publishCalls w1 = publishCalls w @ [(m, t)]" "CDR_ChunkID m = ChunkID r"
      using requestChunkDataPack_publishCalls[of e r w] rq by auto
    show ?thesis
      using \<open>\<not> Height r \<le> h\<close> True rq p onRequestDispatched_logs(2)[of e "ChunkID r" w1]
      by (cases er) (simp_all add: handleChunkDataPackRequest_def)
  qed
qed

lemma handleAll_keys:
  "set (map entryKey (pendingRequests (handleAll e h rs w)))
     = set (map entryKey (pendingRequests w)) - ChunkID ` {r \<in> set rs. Height r \<le> h}"
proof (induction rs arbitrary: w)
  case Nil
  then show ?case by simp
next
  case (Cons r rs)
  show ?case
    unfolding handleAll.simps Cons.IH step_keys by auto
qed

lemma handleAll_handlerCalls:
  "\<exists>xs. handlerCalls (handleAll e h rs w) = handlerCalls w @ xs
       \<and> NotifyChunkDataPackSealed ` ChunkID ` {r \<in> set rs. Height r \<le> h} \<subseteq> set xs"
proof (induction rs arbitrary: w)
  case Nil
  then show ?case by simp
next
  case (Cons r rs)
  obtain xs where xs: "handlerCalls (handleAll e h rs (handleChunkDataPackRequest e r h w))
        = handlerCalls (handleChunkDataPackRequest e r h w) @ xs"
     "NotifyChunkDataPackSealed ` ChunkID ` {r \<in> set rs. Height r \<le> h} \<subseteq> set xs"
    using Cons.IH by blast
  show ?case
    using xs by (auto simp: step_handlerCalls)
qed

lemma handleAll_publishCalls:
  "\<exists>ys. publishCalls (handleAll e h rs w) = publishCalls w @ ys
       \<and> CDR_ChunkID ` fst ` set ys \<subseteq> ChunkID ` {r \<in> set rs. \<not> Height r \<le> h}"
proof (induction rs arbitrary: w)
  case Nil
  then show ?case by simp
next
  case (Cons r rs)
  obtain ys where ys: "publishCalls (handleAll e h rs (handleChunkDataPackRequest e r h w))
        = publishCalls (handleChunkDataPackRequest e r h w) @ ys"
     "CDR_ChunkID ` fst ` set ys \<subseteq> ChunkID ` {r \<in> set rs. \<not> Height r \<le> h}"
    using Cons.IH by blast
  obtain zs where zs: "publishCalls (handleChunkDataPackRequest e r h w) = publishCalls w @ zs"
     "CDR_ChunkID ` fst ` set zs \<subseteq> (if Height r \<le> h then {} else {ChunkID r})"
    using step_publishCalls by blast
  have "publishCalls (handleAll e h (r # rs) w) = publishCalls w @ (zs @ ys)"
    using ys zs by simp
  moreover have "CDR_ChunkID ` fst ` set zs \<subseteq> ChunkID ` {r' \<in> set (r # rs). \<not> Height r' \<le> h}"
    using zs(2) by (cases "Height r \<le> h") auto
  moreover have "ChunkID ` {r \<in> set rs. \<not> Height r \<le> h}
      \<subseteq> ChunkID ` {r' \<in> set (r # rs). \<not> Height r' \<le> h}"
    by auto
  then have "CDR_ChunkID ` fst ` set ys \<subseteq> ChunkID ` {r' \<in> set (r # rs). \<not> Height r' \<le> h}"
    using ys(2) by (rule order_trans [rotated])
  ultimately have "publishCalls (handleAll e h (r # rs) w) = publishCalls w @ (zs @ ys)
      \<and> CDR_ChunkID ` fst ` set (zs @ ys) \<subseteq> ChunkID ` {r' \<in> set (r # rs). \<not> Height r' \<le> h}"
    by (simp add: image_Un)
  then show ?case by blast
qed

text \<open>
  Claim C6. On a timer tick that reads the last sealed height from the protocol state,
  every pending request whose block height is at most that height is removed from the
  pending requests mempool, the handler is notified that its chunk belongs to a sealed
  block, and no request for its chunk is published on that tick. The mempool holds
  one entry per chunk ID.
\<close>

theorem onTimer_drops_requests_of_sealed_blocks:
  assumes head: "state_Sealed_Head e = Inr lastSealedHeight"
    and tick: "onTimer e w = Inr w'"
    and keys: "distinct (map entryKey (pendingRequests w))"
    and pending: "request \<in> set (ChunkRequests_All (pendingRequests w))"
    and sealed: "Height request \<le> lastSealedHeight"
  shows "\<not> ChunkRequests_Has (pendingRequests w') (ChunkID request)
       \<and> NotifyChunkDataPackSealed (ChunkID request) \<in> set (since (handlerCalls w) (handlerCalls w'))
       \<and> ChunkID request \<notin> CDR_ChunkID ` fst ` set (since (publishCalls w) (publishCalls w'))"
proof -
  let ?rs = "ChunkRequests_All (pendingRequests w)"
  have w': "w' = handleAll e lastSealedHeight ?rs w"
    using head tick by (simp add: onTimer_def)
  have inj: "distinct (map ChunkID ?rs)"
    using keys by (simp add: ChunkRequests_All_def entryKey_def [abs_def] comp_def)
  have "ChunkID request \<in> ChunkID ` {r \<in> set ?rs. Height r \<le> lastSealedHeight}"
    using pending sealed by blast
  then have removed: "\<not> ChunkRequests_Has (pendingRequests w') (ChunkID request)"
    unfolding ChunkRequests_Has_def w' handleAll_keys by blast
  obtain xs where xs: "handlerCalls w' = handlerCalls w @ xs"
      "NotifyChunkDataPackSealed ` ChunkID ` {r \<in> set ?rs. Height r \<le> lastSealedHeight} \<subseteq> set xs"
    unfolding w' using handleAll_handlerCalls by blast
  have notified: "NotifyChunkDataPackSealed (ChunkID request) \<in> set (since (handlerCalls w) (handlerCalls w'))"
    using xs pending sealed by (auto simp: since_def)
  obtain ys where ys: "publishCalls w' = publishCalls w @ ys"
      "CDR_ChunkID ` fst ` set ys \<subseteq> ChunkID ` {r \<in> set ?rs. \<not> Height r \<le> lastSealedHeight}"
    unfolding w' using handleAll_publishCalls by blast
  have "ChunkID request \<notin> ChunkID ` {r \<in> set ?rs. \<not> Height r \<le> lastSealedHeight}"
  proof
    assume "ChunkID request \<in> ChunkID ` {r \<in> set ?rs. \<not> Height r \<le> lastSealedHeight}"
    then obtain r where r: "r \<in> set ?rs" "\<not> Height r \<le> lastSealedHeight" "ChunkID r = ChunkID request"
      by auto
    from inj have "inj_on ChunkID (set ?rs)" by (simp add: distinct_map)
    with r pending have "r = request" by (auto dest: inj_onD)
    with r sealed show False by simp
  qed
  then have silent: "ChunkID request \<notin> CDR_ChunkID ` fst ` set (since (publishCalls w) (publishCalls w'))"
    using ys by (auto simp: since_def)
  from removed notified silent show ?thesis by blast
qed

theorem onTimer_drops_requests_of_sealed_blocks_witness:
  "state_Sealed_Head (exampleEngine None) = Inr 10
   \<and> distinct (map entryKey (pendingRequests exampleWorld))
   \<and> sealedRequest \<in> set (ChunkRequests_All (pendingRequests exampleWorld))
   \<and> Height sealedRequest \<le> 10
   \<and> \<not> ChunkRequests_Has (pendingRequests (projr (onTimer (exampleEngine None) exampleWorld))) 7
   \<and> NotifyChunkDataPackSealed 7
        \<in> set (since (handlerCalls exampleWorld)
                 (handlerCalls (projr (onTimer (exampleEngine None) exampleWorld))))
   \<and> 7 \<notin> CDR_ChunkID ` fst ` set (since (publishCalls exampleWorld)
                 (publishCalls (projr (onTimer (exampleEngine None) exampleWorld))))"
proof -
  have head: "state_Sealed_Head (exampleEngine None) = Inr 10"
    by (simp add: exampleEngine_def)
  have tick: "onTimer (exampleEngine None) exampleWorld
      = Inr (projr (onTimer (exampleEngine None) exampleWorld))"
    by (simp add: onTimer_def exampleEngine_def)
  have keys: "distinct (map entryKey (pendingRequests exampleWorld))"
    by (simp add: example_defs entryKey_def)
  have pending: "sealedRequest \<in> set (ChunkRequests_All (pendingRequests exampleWorld))"
    by (simp add: example_defs ChunkRequests_All_def)
  have sealed: "Height sealedRequest \<le> 10"
    by (simp add: example_defs)
  have id7: "ChunkID sealedRequest = 7"
    by (simp add: example_defs)
  show ?thesis
    using onTimer_drops_requests_of_sealed_blocks [OF head tick keys pending sealed]
      head keys pending sealed
    unfolding id7 by blast
qed

lemma Has_after_Rem: "\<not> ChunkRequests_Has (snd (ChunkRequests_Rem pool c)) c"
  by (auto simp: ChunkRequests_Has_def ChunkRequests_Rem_def)

lemma handleChunkDataPack_calls:
  "handlerCalls (handleChunkDataPack e originID cdp coll w)
     = handlerCalls w @ (if ChunkRequests_Has (pendingRequests w) (CDP_ChunkID cdp)
                         then [HandleChunkDataPack originID cdp coll] else [])"
  by (simp add: handleChunkDataPack_def ChunkRequests_Rem_def Let_def)

lemma handleChunkDataPack_pending:
  "pendingRequests (handleChunkDataPack e originID cdp coll w)
     = snd (ChunkRequests_Rem (pendingRequests w) (CDP_ChunkID cdp))"
  by (simp add: handleChunkDataPack_def ChunkRequests_Rem_def Let_def)

text \<open>
  Claim C7. A received chunk data response is handed to the handler only if its chunk
  ID was in the pending requests mempool and its removal succeeded (first three
  conjuncts, for any delivery); so of two deliveries of responses with the same chunk
  ID, for a chunk that was requested and with no new request between them, exactly the
  first reaches the handler (last conjunct).
\<close>

theorem ChunkDataResponse_delivered_once:
  assumes same: "CDP_ChunkID cdp2 = CDP_ChunkID cdp1"
    and pending: "ChunkRequests_Has (pendingRequests w) (CDP_ChunkID cdp1)"
  shows "since (handlerCalls w0) (handlerCalls (handleChunkDataPack e o0 cdp0 c0 w0))
           = (if fst (ChunkRequests_Rem (pendingRequests w0) (CDP_ChunkID cdp0))
              then [HandleChunkDataPack o0 cdp0 c0] else [])
       \<and> fst (ChunkRequests_Rem (pendingRequests w0) (CDP_ChunkID cdp0))
           = ChunkRequests_Has (pendingRequests w0) (CDP_ChunkID cdp0)
       \<and> \<not> ChunkRequests_Has (pendingRequests (handleChunkDataPack e o0 cdp0 c0 w0)) (CDP_ChunkID cdp0)
       \<and> since (handlerCalls w)
            (handlerCalls (handleChunkDataPack e o2 cdp2 c2 (handleChunkDataPack e o1 cdp1 c1 w)))
           = [HandleChunkDataPack o1 cdp1 c1]"
proof -
  let ?w1 = "handleChunkDataPack e o1 cdp1 c1 w"
  have gone: "\<not> ChunkRequests_Has (pendingRequests ?w1) (CDP_ChunkID cdp2)"
    unfolding same handleChunkDataPack_pending by (rule Has_after_Rem)
  have "handlerCalls (handleChunkDataPack e o2 cdp2 c2 ?w1) = handlerCalls w @ [HandleChunkDataPack o1 cdp1 c1]"
    using gone pending by (simp add: handleChunkDataPack_calls)
  then have twice: "since (handlerCalls w) (handlerCalls (handleChunkDataPack e o2 cdp2 c2 ?w1))
      = [HandleChunkDataPack o1 cdp1 c1]"
    by (simp add: since_def)
  have single: "since (handlerCalls w0) (handlerCalls (handleChunkDataPack e o0 cdp0 c0 w0))
           = (if fst (ChunkRequests_Rem (pendingRequests w0) (CDP_ChunkID cdp0))
              then [HandleChunkDataPack o0 cdp0 c0] else [])"
    by (simp add: handleChunkDataPack_calls since_def ChunkRequests_Rem_def)
  have rem: "fst (ChunkRequests_Rem (pendingRequests w0) (CDP_ChunkID cdp0))
           = ChunkRequests_Has (pendingRequests w0) (CDP_ChunkID cdp0)"
    by (simp add: ChunkRequests_Rem_def)
  have after: "\<not> ChunkRequests_Has (pendingRequests (handleChunkDataPack e o0 cdp0 c0 w0)) (CDP_ChunkID cdp0)"
    unfolding handleChunkDataPack_pending by (rule Has_after_Rem)
  from single rem after twice show ?thesis by blast
qed

theorem ChunkDataResponse_delivered_once_witness:
  "ChunkRequests_Has (pendingRequests exampleWorld) (CDP_ChunkID exampleChunkDataPack)
   \<and> since (handlerCalls exampleWorld)
        (handlerCalls (handleChunkDataPack (exampleEngine None) 2 exampleChunkDataPack \<lparr> Transactions = [] \<rparr>
           (handleChunkDataPack (exampleEngine None) 1 exampleChunkDataPack \<lparr> Transactions = [] \<rparr> exampleWorld)))
       = [HandleChunkDataPack 1 exampleChunkDataPack \<lparr> Transactions = [] \<rparr>]"
proof -
  have pending: "ChunkRequests_Has (pendingRequests exampleWorld) (CDP_ChunkID exampleChunkDataPack)"
    by (simp add: example_defs ChunkRequests_Has_def entryKey_def)
  show ?thesis
    using ChunkDataResponse_delivered_once
        [where ?cdp1.0 = exampleChunkDataPack and ?cdp2.0 = exampleChunkDataPack
           and w = exampleWorld and ?w0.0 = exampleWorld and e = "exampleEngine None"
           and ?o0.0 = 1 and ?o1.0 = 1 and ?o2.0 = 2 and ?cdp0.0 = exampleChunkDataPack
           and ?c0.0 = "\<lparr> Transactions = [] \<rparr>" and ?c1.0 = "\<lparr> Transactions = [] \<rparr>"
           and ?c2.0 = "\<lparr> Transactions = [] \<rparr>", OF refl pending]
      pending
    by blast
qed

lemma find_map_update:
  "find (\<lambda>x. k x = c) (map (\<lambda>x. if k x = c then u x else x) xs)
     = map_option u (find (\<lambda>x. k x = c) xs)" if "\<And>x. k (u x) = k x"
  using that by (induction xs) auto

lemma RequestHistory_after_update:
  "RequestHistory (snd (UpdateRequestHistory pool c f)) c
     = map_option (\<lambda>(a, l, r). f a l r) (RequestHistory pool c)"
proof (cases "find (\<lambda>entry. entryKey entry = c) pool")
  case None
  then show ?thesis
    by (simp add: UpdateRequestHistory_def RequestHistory_def)
next
  case (Some entry)
  obtain a l r where f: "f (Attempts entry) (LastAttempt entry) (RetryAfter entry) = (a, l, r)"
    by (cases "f (Attempts entry) (LastAttempt entry) (RetryAfter entry)")
  have "find (\<lambda>x. entryKey x = c)
          (map (\<lambda>x. if entryKey x = c then x\<lparr>Attempts := a, LastAttempt := l, RetryAfter := r\<rparr> else x) pool)
        = map_option (\<lambda>x. x\<lparr>Attempts := a, LastAttempt := l, RetryAfter := r\<rparr>) (find (\<lambda>x. entryKey x = c) pool)"
    by (rule find_map_update) (simp add: entryKey_def)
  with Some f show ?thesis
    by (simp add: UpdateRequestHistory_def RequestHistory_def)
qed

text \<open>
  Claim C10. When publishing the chunk data request fails, the pending requests
  mempool is left as it was: attempts, last attempt and retry-after of the request keep
  their values. The history is changed, by the updater function, only after a
  publish that succeeded; a request that does not qualify for dispatch is not published
  and its history is not changed.
\<close>

theorem failed_publish_leaves_history:
  assumes step: "w' = handleChunkDataPackRequest e request lastSealedHeight w"
    and unsealed: "\<not> Height request \<le> lastSealedHeight"
  shows "if canDispatchRequest e (ChunkID request) w
         then (case fst (requestChunkDataPack e request w) of
                 Some err \<Rightarrow> pendingRequests w' = pendingRequests w
               | None \<Rightarrow> RequestHistory (pendingRequests w') (ChunkID request)
                          = map_option (\<lambda>(attempts, lastAttempt, retryAfter).
                                reqUpdaterFunc e attempts lastAttempt retryAfter)
                              (RequestHistory (pendingRequests w) (ChunkID request)))
         else pendingRequests w' = pendingRequests w \<and> publishCalls w' = publishCalls w"
proof (cases "canDispatchRequest e (ChunkID request) w")
  case False
  with step unsealed show ?thesis
    by (simp add: handleChunkDataPackRequest_def)
next
  case True
  obtain er w1 where rq: "requestChunkDataPack e request w = (er, w1)" by force
  then have p: "pendingRequests w1 = pendingRequests w"
    using requestChunkDataPack_pending[of e request w] by simp
  show ?thesis
  proof (cases er)
    case (Some err)
    with rq p step unsealed True show ?thesis
      by (simp add: handleChunkDataPackRequest_def)
  next
    case None
    with rq step unsealed True
    have "pendingRequests w' = snd (UpdateRequestHistory (pendingRequests w1) (ChunkID request) (reqUpdaterFunc e))"
      by (simp add: handleChunkDataPackRequest_def onRequestDispatched_def split: prod.splits)
    with None rq p True show ?thesis
      by (simp add: RequestHistory_after_update)
  qed
qed

theorem failed_publish_leaves_history_witness:
  "\<not> Height openRequest \<le> 10
   \<and> canDispatchRequest (exampleEngine (Some ''unreachable'')) (ChunkID openRequest) exampleWorld
   \<and> fst (requestChunkDataPack (exampleEngine (Some ''unreachable'')) openRequest exampleWorld) \<noteq> None
   \<and> pendingRequests (handleChunkDataPackRequest (exampleEngine (Some ''unreachable'')) openRequest 10 exampleWorld)
       = pendingRequests exampleWorld"
proof -
  have unsealed: "\<not> Height openRequest \<le> 10"
    by (simp add: example_defs)
  have dispatchable:
    "canDispatchRequest (exampleEngine (Some ''unreachable'')) (ChunkID openRequest) exampleWorld"
    by (simp add: example_defs canDispatchRequest_def RequestHistory_def entryKey_def)
  have fails: "fst (requestChunkDataPack (exampleEngine (Some ''unreachable'')) openRequest exampleWorld)
      = Some (''could not publish chunk data pack request: '' @ ''unreachable'')"
    by (simp add: exampleEngine_def requestChunkDataPack_def Let_def)
  show ?thesis
    using failed_publish_leaves_history [OF refl unsealed,
        of "exampleEngine (Some ''unreachable'')" exampleWorld]
      unsealed dispatchable fails
    by simp
qed

section \<open>The consensus payload builder: properties\<close>

lemma selectSeals_chain: "sealChain lastResultID (selectSeals candidates n lastResultID)"
proof (induction n arbitrary: lastResultID)
  case 0
  then show ?case by simp
next
  case (Suc n)
  show ?case
  proof (cases "find (continues lastResultID) candidates")
    case None
    then show ?thesis by simp
  next
    case (Some s)
    then have "continues lastResultID s"
      by (auto simp: find_Some_iff)
    with Some Suc.IH show ?thesis by simp
  qed
qed

lemma selectSeals_length: "length (selectSeals candidates n lastResultID) \<le> n"
  by (induction n arbitrary: lastResultID) (auto split: option.splits)

lemma selectSeals_subset: "set (selectSeals candidates n lastResultID) \<subseteq> set candidates"
proof (induction n arbitrary: lastResultID)
  case 0
  then show ?case by simp
next
  case (Suc n)
  show ?case
  proof (cases "find (continues lastResultID) candidates")
    case None
    then show ?thesis by simp
  next
    case (Some s)
    then have "s \<in> set candidates"
      by (auto simp: find_Some_iff)
    with Some Suc.IH show ?thesis by auto
  qed
qed

lemma selectSeals_stops_at_gap:
  "length (selectSeals candidates n lastResultID) < n \<Longrightarrow>
   find (continues (chainEnd lastResultID (selectSeals candidates n lastResultID))) candidates = None"
proof (induction n arbitrary: lastResultID)
  case 0
  then show ?case by simp
next
  case (Suc n)
  show ?case
  proof (cases "find (continues lastResultID) candidates")
    case None
    then show ?thesis by simp
  next
    case (Some s)
    with Suc.prems have "length (selectSeals candidates n (Seal_ResultID (Seal s))) < n"
      by simp
    then have "find (continues (chainEnd (Seal_ResultID (Seal s))
        (selectSeals candidates n (Seal_ResultID (Seal s))))) candidates = None"
      by (rule Suc.IH)
    with Some show ?thesis by simp
  qed
qed

lemma selectSeals_missing_next:
  "find (continues lastResultID) candidates = None \<Longrightarrow> selectSeals candidates n lastResultID = []"
  by (cases n) simp_all

lemma reachableFrom_filtered:
  "set (reachableFrom n tree bf rf frontier) \<subseteq> {receipt. rf receipt}"
proof (induction n arbitrary: frontier)
  case 0
  then show ?case by simp
next
  case (Suc n)
  show ?case
    using Suc.IH by (auto simp: Let_def)
qed

lemma getInsertableReceipts_filtered:
  "set (getInsertableReceipts b fork lastSeal) \<subseteq> {receipt. receiptFilter b fork lastSeal receipt}"
proof -
  have "set (getInsertableReceipts b fork lastSeal)
      \<subseteq> set (ReachableReceipts (recPool b) (Seal_ResultID lastSeal)
            (blockFilter fork lastSeal) (receiptFilter b fork lastSeal))"
    unfolding getInsertableReceipts_def by (rule set_take_subset)
  also have "\<dots> \<subseteq> {receipt. receiptFilter b fork lastSeal receipt}"
    unfolding ReachableReceipts_def by (rule reachableFrom_filtered)
  finally show ?thesis .
qed

lemmas builder_example_defs = exampleBuilder_def resultS_def resultA_def resultB_def
  receiptOf_def headerS_def headerA_def headerB_def blockS_def blockA_def blockB_def sealFor_def

lemma example_walk:
  "walkBack [10 \<mapsto> blockS, 11 \<mapsto> blockA, 12 \<mapsto> blockB] 2 12 = Inr [blockB, blockA]"
proof -
  have "walkBack [10 \<mapsto> blockS, 11 \<mapsto> blockA, 12 \<mapsto> blockB] (Suc (Suc 0)) 12
      = Inr [blockB, blockA]"
    by (simp add: blockA_def blockB_def headerA_def headerB_def)
  then show ?thesis by (simp add: numeral_2_eq_2)
qed

lemma example_fork:
  "forkOf (exampleBuilder n) 12 = Inr (\<lparr> Seal_BlockID = 10, Seal_ResultID = 100 \<rparr>, [blockB, blockA])"
  using example_walk
  by (simp add: forkOf_def exampleBuilder_def blockS_def blockB_def headerS_def headerB_def)

lemma example_seals:
  "getInsertableSeals (exampleBuilder 1) [blockB, blockA] \<lparr> Seal_BlockID = 10, Seal_ResultID = 100 \<rparr>
     = [sealFor resultA]"
proof -
  have "selectSeals [sealFor resultB, sealFor resultA] (Suc 0) 100 = [sealFor resultA]"
    by (simp add: sealFor_def resultA_def resultB_def continues_def)
  then show ?thesis
    by (simp add: getInsertableSeals_def sealCandidates_def forkIDs_def exampleBuilder_def
        sealFor_def resultA_def resultB_def blockA_def blockB_def headerA_def headerB_def)
qed

lemma example_receipts:
  "getInsertableReceipts (exampleBuilder n) [blockB, blockA] \<lparr> Seal_BlockID = 10, Seal_ResultID = 100 \<rparr>
     = [receiptOf 2 resultA, receiptOf 3 resultB]"
proof -
  let ?b = "exampleBuilder n" and ?f = "[blockB, blockA]"
    and ?s = "\<lparr> Seal_BlockID = 10, Seal_ResultID = 100 \<rparr>"
  have bf: "blockFilter ?f ?s headerS" "blockFilter ?f ?s headerA" "blockFilter ?f ?s headerB"
    by (simp_all add: blockFilter_def forkIDs_def blockA_def blockB_def headerS_def headerA_def
        headerB_def)
  have rf: "\<not> receiptFilter ?b ?f ?s (receiptOf 3 resultS)"
      "\<not> receiptFilter ?b ?f ?s (receiptOf 3 resultA)"
      "receiptFilter ?b ?f ?s (receiptOf 2 resultA)"
      "receiptFilter ?b ?f ?s (receiptOf 3 resultB)"
    by (simp_all add: receiptFilter_def forSealedBlock_def incorporatedReceipts_def Meta_def
        builder_example_defs word_le_nat_alt)
  have prev: "PreviousResultID (ExecutionResult (receiptOf e resultS)) = 99"
      "PreviousResultID (ExecutionResult (receiptOf e resultA)) = 100"
      "PreviousResultID (ExecutionResult (receiptOf e resultB)) = 101"
      "ResultID (ExecutionResult (receiptOf e resultA)) = 101"
      "ResultID (ExecutionResult (receiptOf e resultB)) = 102" for e
    by (simp_all add: receiptOf_def resultS_def resultA_def resultB_def)
  have pool: "recPool ?b = [(receiptOf 3 resultS, headerS), (receiptOf 3 resultA, headerA),
                  (receiptOf 2 resultA, headerA), (receiptOf 3 resultB, headerB)]"
    by (simp add: exampleBuilder_def)
  have "reachableFrom (Suc (Suc (Suc (Suc 0)))) (recPool ?b) (blockFilter ?f ?s)
          (receiptFilter ?b ?f ?s) [100]
        = [receiptOf 2 resultA, receiptOf 3 resultB]"
    unfolding pool by (simp add: bf rf prev Let_def)
  moreover have "length (recPool ?b) = Suc (Suc (Suc (Suc 0)))"
    by (simp add: exampleBuilder_def)
  moreover have "unat (maxReceiptCount ?b) = 5"
    by (simp add: exampleBuilder_def)
  ultimately show ?thesis
    by (simp add: getInsertableReceipts_def ReachableReceipts_def)
qed

lemma example_build:
  "BuildOn (exampleBuilder 1) 12
     = Inr \<lparr> Receipts = [Meta (receiptOf 2 resultA), Meta (receiptOf 3 resultB)],
             Results = [resultB],
             Seals = [\<lparr> Seal_BlockID = 11, Seal_ResultID = 101 \<rparr>] \<rparr>"
  by (simp add: BuildOn_def example_fork example_seals example_receipts Let_def
      toInsertableResults_def incorporatedResults_def)
     (simp add: builder_example_defs)

text \<open>
  Claim C8. In every payload the builder builds, the seals form a chain that continues
  from the last seal of the fork: the incorporated result of each included seal has as
  its previous result the result the seal before it seals (the first one the result of
  the last seal of the fork). The selection stops at the first gap in the chain of
  candidate seals, so the list is empty when the immediately next seal is missing and
  otherwise either the limit is reached or no candidate continues the chain; and at
  most \<open>maxSealCount\<close> seals are included.
\<close>

theorem built_seals_form_chain:
  assumes built: "BuildOn b parentID = Inr payload"
  shows "\<exists>lastSeal fork selected.
           forkOf b parentID = Inr (lastSeal, fork)
         \<and> Seals payload = map Seal selected
         \<and> set selected \<subseteq> set (sealCandidates b fork)
         \<and> sealChain (Seal_ResultID lastSeal) selected
         \<and> length (Seals payload) \<le> unat (maxSealCount b)
         \<and> (if find (continues (Seal_ResultID lastSeal)) (sealCandidates b fork) = None
             then Seals payload = []
             else length (Seals payload) = unat (maxSealCount b)
                  \<or> find (continues (chainEnd (Seal_ResultID lastSeal) selected))
                       (sealCandidates b fork) = None)"
proof -
  from built obtain lastSeal fork where f: "forkOf b parentID = Inr (lastSeal, fork)"
    by (cases "forkOf b parentID") (auto simp: BuildOn_def)
  let ?sel = "getInsertableSeals b fork lastSeal"
  let ?cands = "sealCandidates b fork"
  let ?n = "unat (maxSealCount b)"
  have s: "Seals payload = map Seal ?sel"
    using built f by (auto simp: BuildOn_def Let_def)
  have sub: "set ?sel \<subseteq> set ?cands"
    unfolding getInsertableSeals_def by (rule selectSeals_subset)
  have chain: "sealChain (Seal_ResultID lastSeal) ?sel"
    unfolding getInsertableSeals_def by (rule selectSeals_chain)
  have len: "length (Seals payload) \<le> ?n"
    unfolding s getInsertableSeals_def by (simp add: selectSeals_length)
  have gap: "Seals payload = []" if "find (continues (Seal_ResultID lastSeal)) ?cands = None"
    unfolding s getInsertableSeals_def using that by (simp add: selectSeals_missing_next)
  have full: "length (Seals payload) = ?n
      \<or> find (continues (chainEnd (Seal_ResultID lastSeal) ?sel)) ?cands = None"
  proof (cases "length ?sel < ?n")
    case True
    then show ?thesis
      unfolding getInsertableSeals_def by (simp add: selectSeals_stops_at_gap)
  next
    case False
    with len s show ?thesis by simp
  qed
  from f s sub chain len gap full show ?thesis
    by (intro exI [of _ lastSeal] exI [of _ fork] exI [of _ ?sel]) simp
qed

theorem built_seals_form_chain_witness:
  "BuildOn (exampleBuilder 1) 12
     = Inr \<lparr> Receipts = [Meta (receiptOf 2 resultA), Meta (receiptOf 3 resultB)],
             Results = [resultB],
             Seals = [\<lparr> Seal_BlockID = 11, Seal_ResultID = 101 \<rparr>] \<rparr>
   \<and> (\<exists>selected. [\<lparr> Seal_BlockID = 11, Seal_ResultID = 101 \<rparr>] = map Seal selected
         \<and> sealChain 100 selected)"
proof -
  obtain lastSeal fork selected where
    "forkOf (exampleBuilder 1) 12 = Inr (lastSeal, fork)"
    "Seals \<lparr> Receipts = [Meta (receiptOf 2 resultA), Meta (receiptOf 3 resultB)],
             Results = [resultB],
             Seals = [\<lparr> Seal_BlockID = 11, Seal_ResultID = 101 \<rparr>] \<rparr> = map Seal selected"
    "sealChain (Seal_ResultID lastSeal) selected"
    using built_seals_form_chain [OF example_build] by blast
  then show ?thesis
    using example_build by (auto simp: example_fork)
qed

text \<open>
  Claim C9. A payload built on a fork holds no receipt that is already incorporated in
  a block of that fork, and the full result of a selected receipt is in the payload
  only if the result was not previously incorporated on the fork; for a result that
  was, only the receipt meta is in the payload.
\<close>

theorem built_receipts_not_incorporated:
  assumes built: "BuildOn b parentID = Inr payload"
  shows "\<exists>lastSeal fork selected.
           forkOf b parentID = Inr (lastSeal, fork)
         \<and> Receipts payload = map Meta selected
         \<and> set (Receipts payload) \<inter> set (incorporatedReceipts fork) = {}
         \<and> set (Results payload)
             = ExecutionResult ` {receipt \<in> set selected.
                 ResultID (ExecutionResult receipt) \<notin> set (incorporatedResults fork)}
         \<and> ResultID ` set (Results payload) \<inter> set (incorporatedResults fork) = {}"
proof -
  from built obtain lastSeal fork where f: "forkOf b parentID = Inr (lastSeal, fork)"
    by (cases "forkOf b parentID") (auto simp: BuildOn_def)
  let ?sel = "getInsertableReceipts b fork lastSeal"
  have r: "Receipts payload = map Meta ?sel"
    using built f by (auto simp: BuildOn_def Let_def)
  have res: "Results payload = toInsertableResults fork ?sel"
    using built f by (auto simp: BuildOn_def Let_def)
  have fresh: "set (Receipts payload) \<inter> set (incorporatedReceipts fork) = {}"
    unfolding r using getInsertableReceipts_filtered [of b fork lastSeal]
    by (auto simp: receiptFilter_def)
  have full: "set (Results payload)
      = ExecutionResult ` {receipt \<in> set ?sel.
          ResultID (ExecutionResult receipt) \<notin> set (incorporatedResults fork)}"
    unfolding res toInsertableResults_def by auto
  then have new: "ResultID ` set (Results payload) \<inter> set (incorporatedResults fork) = {}"
    by auto
  from f r fresh full new show ?thesis
    by (intro exI [of _ lastSeal] exI [of _ fork] exI [of _ ?sel]) simp
qed

theorem built_receipts_not_incorporated_witness:
  "BuildOn (exampleBuilder 1) 12
     = Inr \<lparr> Receipts = [Meta (receiptOf 2 resultA), Meta (receiptOf 3 resultB)],
             Results = [resultB],
             Seals = [\<lparr> Seal_BlockID = 11, Seal_ResultID = 101 \<rparr>] \<rparr>
   \<and> set [Meta (receiptOf 2 resultA), Meta (receiptOf 3 resultB)]
       \<inter> set (incorporatedReceipts [blockB, blockA]) = {}
   \<and> ResultID ` set [resultB] \<inter> set (incorporatedResults [blockB, blockA]) = {}"
proof -
  obtain lastSeal fork where
    "forkOf (exampleBuilder 1) 12 = Inr (lastSeal, fork)"
    "set (Receipts \<lparr> Receipts = [Meta (receiptOf 2 resultA), Meta (receiptOf 3 resultB)],
             Results = [resultB],
             Seals = [\<lparr> Seal_BlockID = 11, Seal_ResultID = 101 \<rparr>] \<rparr>)
       \<inter> set (incorporatedReceipts fork) = {}"
    "ResultID ` set (Results \<lparr> Receipts = [Meta (receiptOf 2 resultA), Meta (receiptOf 3 resultB)],
             Results = [resultB],
             Seals = [\<lparr> Seal_BlockID = 11, Seal_ResultID = 101 \<rparr>] \<rparr>)
       \<inter> set (incorporatedResults fork) = {}"
    using built_receipts_not_incorporated [OF example_build] by blast
  then show ?thesis
    using example_build by (simp add: example_fork)
qed

end
